theory Spec2Isabelle
  imports Complex_Main "HOL-Library.Word"
begin

section \<open>Exceptions, aborts and outcomes\<close>

text \<open>
  The C++ sources leave a function in one of three ways: by returning, by throwing an
  exception that a caller may catch, or by aborting the whole simulation
  (\<^verbatim>\<open>xbt_die\<close>, a failed \<^verbatim>\<open>xbt_assert\<close>, \<^verbatim>\<open>std::terminate\<close>), which no
  \<^verbatim>\<open>catch\<close> clause intercepts. The three are the constructors of \<open>outcome\<close>.
  Only the exception classes that the sources name are distinguished; every other
  exception is a \<open>user_exception\<close> with a tag.
\<close>

datatype future_errc = broken_promise | future_already_retrieved | promise_already_satisfied | no_state

datatype xbt_errcat = timeout_error | other_category nat

datatype exn =
    future_error future_errc
  | xbt_ex xbt_errcat
  | StopRequest
  | logic_error string
  | user_exception nat

datatype abort = xbt_die string | xbt_assert string | std_terminate

datatype 'a outcome = Returns 'a | Throws exn | Aborts abort

text \<open>A procedure without result that acts on a state.\<close>

type_synonym 'w action = "'w \<Rightarrow> unit outcome \<times> 'w"

section \<open>Kernel futures\<close>

text \<open>
  A member \<^verbatim>\<open>x_\<close> of a C++ class is written without its trailing underscore and
  with the class in front (\<open>state_status\<close> for \<^verbatim>\<open>FutureStateBase::status_\<close>).
  A \<^verbatim>\<open>std::shared_ptr<FutureState<T>>\<close> is an optional address into the store
  \<open>states\<close> of shared states, \<open>None\<close> being \<^verbatim>\<open>nullptr\<close>; a \<^verbatim>\<open>Future<T>\<close>
  holds nothing but that pointer. The store is total and new states are taken at
  \<open>next_state\<close>, so a pointer never dangles, as with reference counting.
\<close>

datatype FutureStatus = not_ready | ready | "done"

type_synonym Future = "nat option"

datatype Promise = Promise (promise_state: "nat option") (future_get: bool)

text \<open>
  The two closures that the sources store as continuations: the lambda of
  \<^verbatim>\<open>thenNoUnwrap\<close> bound to its promise, the shared state and the user's
  continuation, and the task of \<^verbatim>\<open>then_\<close>, the user's continuation bound to the state.
  \<open>'f\<close> is the type of the continuations that return a value, \<open>'g\<close> the type of
  those that return nothing.
\<close>

datatype ('f, 'g) Task = thenNoUnwrap_task Promise nat 'f | then_task 'g nat

record ('v, 'f, 'g) FutureState =
  state_status :: FutureStatus
  state_exception :: "exn option"
  state_continuation :: "('f, 'g) Task option"
  state_value :: "'v option"

text \<open>\<^verbatim>\<open>simgrid::xbt::Result<T>\<close>: its status and the union of a value and an exception.\<close>

datatype 'v Result = Result_invalid | Result_value 'v | Result_exception exn

record simix_global =
  process_to_run :: "nat list"

text \<open>
  The kernel: the actors to run, the shared states of the futures, the ready list of
  scheduled continuations, and for every actor the \<^verbatim>\<open>Result\<close> holder that a blocking
  call of that actor has captured by reference.
\<close>

record ('v, 'f, 'g) kernel = simix_global +
  states :: "nat \<Rightarrow> ('v, 'f, 'g) FutureState"
  next_state :: nat
  ready_list :: "('f, 'g) Task list"
  results :: "nat \<Rightarrow> 'v Result"

text \<open>
  \<^verbatim>\<open>SharedState<T>::get\<close>, on the state itself. The exception pointer that
  \<^verbatim>\<open>std::move\<close> has moved out of \<^verbatim>\<open>exception_\<close> leaves it null, as the move
  of a \<^verbatim>\<open>shared_ptr\<close> does.
\<close>

definition SharedState_get :: "('v, 'f, 'g) FutureState \<Rightarrow> 'v outcome \<times> ('v, 'f, 'g) FutureState" where
  "SharedState_get s =
     (if state_status s \<noteq> ready then (Aborts (xbt_die ''Deadlock: this future is not ready''), s)
      else
        let s1 = s\<lparr>state_status := done\<rparr> in
        (case state_exception s1 of
           Some exception \<Rightarrow> (Throws exception, s1\<lparr>state_exception := None\<rparr>)
         | None \<Rightarrow>
             (case state_value s1 of
                None \<Rightarrow> (Aborts (xbt_assert ''this->value_''), s1)
              | Some result \<Rightarrow> (Returns result, s1\<lparr>state_value := None\<rparr>))))"

text \<open>
  \<^verbatim>\<open>Future<T>::get\<close>: the result, the handle afterwards (its \<^verbatim>\<open>state_\<close> has been
  moved out) and the kernel with the updated shared state.
\<close>

definition Future_get :: "Future \<Rightarrow> ('v, 'f, 'g) kernel \<Rightarrow> 'v outcome \<times> Future \<times> ('v, 'f, 'g) kernel" where
  "Future_get this K =
     (case this of
        None \<Rightarrow> (Throws (future_error no_state), this, K)
      | Some state \<Rightarrow>
          (let (r, s') = SharedState_get (states K state)
           in (r, None, K\<lparr>states := (states K)(state := s')\<rparr>)))"

text \<open>
  Modelled from the spec: \<^verbatim>\<open>Future::valid\<close> is not among the sources. By the spec a
  handle is invalid when it has no associated shared state; the sources test
  \<^verbatim>\<open>state_ == nullptr\<close> for the same thing.
\<close>

definition Future_valid :: "Future \<Rightarrow> bool" where
  "Future_valid this = (this \<noteq> None)"

subsection \<open>Shared state and promise\<close>

text \<open>
  Modelled from the spec: the sources declare \<^verbatim>\<open>FutureStateBase::schedule\<close>,
  \<^verbatim>\<open>set_continuation\<close>, \<^verbatim>\<open>set_value\<close> and \<^verbatim>\<open>set_exception\<close> and the class
  \<^verbatim>\<open>Promise\<close> without their bodies. By the spec a scheduled continuation is enqueued
  into the ready list of the kernel and never called inline; a continuation attached to a
  state that is already ready is scheduled, and otherwise it is kept in the state, which
  holds at most one; satisfying a state stores the value or the exception, makes the status
  ready and schedules the attached continuation; setting a state twice fails with
  \<open>promise_already_satisfied\<close>; an operation on a promise without shared state fails
  with \<open>no_state\<close>; \<^verbatim>\<open>get_future\<close> can be called at most once per promise. A new
  promise owns a new state that is not ready and holds nothing.
\<close>

definition schedule :: "('f, 'g) Task \<Rightarrow> ('v, 'f, 'g) kernel \<Rightarrow> ('v, 'f, 'g) kernel" where
  "schedule job K = K\<lparr>ready_list := ready_list K @ [job]\<rparr>"

definition set_continuation ::
    "nat \<Rightarrow> ('f, 'g) Task \<Rightarrow> ('v, 'f, 'g) kernel \<Rightarrow> ('v, 'f, 'g) kernel" where
  "set_continuation state continuation K =
     (if state_status (states K state) = ready then schedule continuation K
      else K\<lparr>states := (states K)(state := (states K state)\<lparr>state_continuation := Some continuation\<rparr>)\<rparr>)"

definition set_ready :: "nat \<Rightarrow> ('v, 'f, 'g) kernel \<Rightarrow> ('v, 'f, 'g) kernel" where
  "set_ready state K =
     (case state_continuation (states K state) of
        None \<Rightarrow> K\<lparr>states := (states K)(state := (states K state)\<lparr>state_status := ready\<rparr>)\<rparr>
      | Some continuation \<Rightarrow>
          schedule continuation
            (K\<lparr>states := (states K)(state :=
                 (states K state)\<lparr>state_status := ready, state_continuation := None\<rparr>)\<rparr>))"

definition set_value ::
    "nat \<Rightarrow> 'v \<Rightarrow> ('v, 'f, 'g) kernel \<Rightarrow> unit outcome \<times> ('v, 'f, 'g) kernel" where
  "set_value state v K =
     (if state_status (states K state) \<noteq> not_ready
      then (Throws (future_error promise_already_satisfied), K)
      else (Returns (),
            set_ready state
              (K\<lparr>states := (states K)(state := (states K state)\<lparr>state_value := Some v\<rparr>)\<rparr>)))"

definition set_exception ::
    "nat \<Rightarrow> exn \<Rightarrow> ('v, 'f, 'g) kernel \<Rightarrow> unit outcome \<times> ('v, 'f, 'g) kernel" where
  "set_exception state e K =
     (if state_status (states K state) \<noteq> not_ready
      then (Throws (future_error promise_already_satisfied), K)
      else (Returns (),
            set_ready state
              (K\<lparr>states := (states K)(state := (states K state)\<lparr>state_exception := Some e\<rparr>)\<rparr>)))"

definition new_state :: "('v, 'f, 'g) FutureState" where
  "new_state =
     \<lparr>state_status = not_ready, state_exception = None, state_continuation = None,
      state_value = None\<rparr>"

definition Promise_new :: "('v, 'f, 'g) kernel \<Rightarrow> Promise \<times> ('v, 'f, 'g) kernel" where
  "Promise_new K =
     (Promise (Some (next_state K)) False,
      K\<lparr>states := (states K)(next_state K := new_state), next_state := Suc (next_state K)\<rparr>)"

definition Promise_get_future :: "Promise \<Rightarrow> Future outcome \<times> Promise" where
  "Promise_get_future promise =
     (case promise_state promise of
        None \<Rightarrow> (Throws (future_error no_state), promise)
      | Some state \<Rightarrow>
          if future_get promise then (Throws (future_error future_already_retrieved), promise)
          else (Returns (Some state), Promise (Some state) True))"

definition Promise_set_value ::
    "Promise \<Rightarrow> 'v \<Rightarrow> ('v, 'f, 'g) kernel \<Rightarrow> unit outcome \<times> ('v, 'f, 'g) kernel" where
  "Promise_set_value promise v K =
     (case promise_state promise of
        None \<Rightarrow> (Throws (future_error no_state), K)
      | Some state \<Rightarrow> set_value state v K)"

definition Promise_set_exception ::
    "Promise \<Rightarrow> exn \<Rightarrow> ('v, 'f, 'g) kernel \<Rightarrow> unit outcome \<times> ('v, 'f, 'g) kernel" where
  "Promise_set_exception promise e K =
     (case promise_state promise of
        None \<Rightarrow> (Throws (future_error no_state), K)
      | Some state \<Rightarrow> set_exception state e K)"

subsection \<open>Continuations\<close>

text \<open>
  \<^verbatim>\<open>fulfillPromise(promise, code)\<close>, for a promise type given by its \<^verbatim>\<open>set_value\<close>
  and \<^verbatim>\<open>set_exception\<close>: the \<^verbatim>\<open>catch (...)\<close> receives what \<open>code\<close> throws and
  what \<^verbatim>\<open>set_value\<close> throws.
\<close>

definition fulfillPromise ::
    "('r \<Rightarrow> 's \<Rightarrow> unit outcome \<times> 's) \<Rightarrow> (exn \<Rightarrow> 's \<Rightarrow> unit outcome \<times> 's) \<Rightarrow>
     ('s \<Rightarrow> 'r outcome \<times> 's) \<Rightarrow> 's \<Rightarrow> unit outcome \<times> 's" where
  "fulfillPromise promise_set_value promise_set_exception code s =
     (case code s of
        (Returns v, s1) \<Rightarrow>
          (case promise_set_value v s1 of
             (Returns u, s2) \<Rightarrow> (Returns u, s2)
           | (Throws e, s2) \<Rightarrow> promise_set_exception e s2
           | (Aborts a, s2) \<Rightarrow> (Aborts a, s2))
      | (Throws e, s1) \<Rightarrow> promise_set_exception e s1
      | (Aborts a, s1) \<Rightarrow> (Aborts a, s1))"

text \<open>
  \<^verbatim>\<open>Future<T>::thenNoUnwrap\<close>, the crux of \<^verbatim>\<open>then\<close>: the result, the handle
  afterwards and the kernel.
\<close>

definition Future_thenNoUnwrap ::
    "Future \<Rightarrow> 'f \<Rightarrow> ('v, 'f, 'g) kernel \<Rightarrow> Future outcome \<times> Future \<times> ('v, 'f, 'g) kernel" where
  "Future_thenNoUnwrap this continuation K =
     (case this of
        None \<Rightarrow> (Throws (future_error no_state), this, K)
      | Some state \<Rightarrow>
          (let (promise, K1) = Promise_new K in
           case Promise_get_future promise of
             (Returns future, promise') \<Rightarrow>
               (Returns future, None,
                set_continuation state (thenNoUnwrap_task promise' state continuation) K1)
           | (Throws e, promise') \<Rightarrow> (Throws e, None, K1)
           | (Aborts a, promise') \<Rightarrow> (Aborts a, None, K1)))"

text \<open>
  \<^verbatim>\<open>Future<T>::then_\<close>, which the spec calls \<^verbatim>\<open>then_void\<close> (a name cannot end
  with an underscore here).
\<close>

definition Future_then_void ::
    "Future \<Rightarrow> 'g \<Rightarrow> ('v, 'f, 'g) kernel \<Rightarrow> unit outcome \<times> Future \<times> ('v, 'f, 'g) kernel" where
  "Future_then_void this continuation K =
     (case this of
        None \<Rightarrow> (Throws (future_error no_state), this, K)
      | Some state \<Rightarrow> (Returns (), None, set_continuation state (then_task continuation state) K))"

text \<open>
  Running a stored task. \<open>call\<close> applies a continuation of type \<open>'f\<close> to the future it
  receives, \<open>call_void\<close> one of type \<open>'g\<close>. The task of \<^verbatim>\<open>thenNoUnwrap\<close> rebuilds
  the future from the shared state and fulfils its promise with the continuation; the task
  of \<^verbatim>\<open>then_\<close> applies the continuation to the state.
\<close>

definition run_task ::
    "('f \<Rightarrow> Future \<Rightarrow> ('v, 'f, 'g) kernel \<Rightarrow> 'v outcome \<times> ('v, 'f, 'g) kernel) \<Rightarrow>
     ('g \<Rightarrow> Future \<Rightarrow> ('v, 'f, 'g) kernel \<Rightarrow> unit outcome \<times> ('v, 'f, 'g) kernel) \<Rightarrow>
     ('f, 'g) Task \<Rightarrow> ('v, 'f, 'g) kernel \<Rightarrow> unit outcome \<times> ('v, 'f, 'g) kernel" where
  "run_task call call_void task K =
     (case task of
        thenNoUnwrap_task promise state continuation \<Rightarrow>
          (let future = Some state
           in fulfillPromise (Promise_set_value promise) (Promise_set_exception promise)
                (call continuation future) K)
      | then_task continuation state \<Rightarrow> call_void continuation (Some state) K)"

text \<open>Sample states for the closed instances below.\<close>

definition state_with_value :: "(nat, unit, unit) FutureState" where
  "state_with_value =
     \<lparr>state_status = ready, state_exception = None, state_continuation = None, state_value = Some 42\<rparr>"

definition state_with_exception :: "(nat, unit, unit) FutureState" where
  "state_with_exception =
     \<lparr>state_status = ready, state_exception = Some (user_exception 7), state_continuation = None,
      state_value = None\<rparr>"

definition state_pending :: "(nat, unit, unit) FutureState" where
  "state_pending =
     \<lparr>state_status = not_ready, state_exception = None, state_continuation = None, state_value = None\<rparr>"

definition kernel_of :: "('v, 'f, 'g) FutureState \<Rightarrow> ('v, 'f, 'g) kernel" where
  "kernel_of s =
     \<lparr>process_to_run = [], states = (\<lambda>_. s), next_state = 1, ready_list = [],
      results = (\<lambda>_. Result_invalid)\<rparr>"

section \<open>Simcalls issued by an actor\<close>

text \<open>
  What an actor sees of the simulation: whether the running context is maestro
  (\<^verbatim>\<open>SIMIX_is_maestro()\<close>), the running actor (\<^verbatim>\<open>SIMIX_process_self()\<close>), the
  simulated clock (\<^verbatim>\<open>SIMIX_get_clock()\<close>), the simcalls issued so far and the state
  of the kernel. Simulated time is a \<^verbatim>\<open>double\<close> in the sources and a real number
  here: the sources only compare times and subtract them, and the comparisons are exact on
  finite doubles. The subtraction of doubles rounds, so it is not the subtraction of reals:
  it is the parameter \<open>minus_double\<close> of the one function that subtracts. Infinities
  and NaN are left out.
\<close>

datatype simcall =
    SIMCALL_PROCESS_SLEEP real
  | SIMCALL_MUTEX_LOCK nat
  | SIMCALL_COND_WAIT_TIMEOUT nat nat real
  | SIMCALL_RUN_KERNEL
  | SIMCALL_RUN_BLOCKING

record 'k world =
  SIMIX_is_maestro :: bool
  SIMIX_process_self :: nat
  SIMIX_get_clock :: real
  simcalls :: "simcall list"
  kernel_state :: 'k

type_synonym 'k handler = "simcall \<Rightarrow> 'k world \<Rightarrow> unit outcome \<times> 'k world"

text \<open>
  Modelled from the spec: the bodies of the typed simcalls (\<^verbatim>\<open>simcall_BODY_...\<close>) are
  generated code that is not among the sources. By the spec a simcall stores the request
  in the actor's simcall record, control switches to maestro, which handles it, and the
  actor is resumed later with the result or with an exception. The kernel's handling is the
  parameter \<open>handle\<close>; whatever it does, the request is recorded and the actor resumes as
  itself, outside maestro.
\<close>

definition simcall_BODY :: "'k handler \<Rightarrow> simcall \<Rightarrow> 'k world \<Rightarrow> unit outcome \<times> 'k world" where
  "simcall_BODY handle call w =
     (let (r, w') = handle call w
      in (r, w'\<lparr>SIMIX_is_maestro := SIMIX_is_maestro w, SIMIX_process_self := SIMIX_process_self w,
                simcalls := simcalls w @ [call]\<rparr>))"

definition simcall_process_sleep :: "'k handler \<Rightarrow> real \<Rightarrow> 'k world \<Rightarrow> unit outcome \<times> 'k world" where
  "simcall_process_sleep handle duration w = simcall_BODY handle (SIMCALL_PROCESS_SLEEP duration) w"

definition simcall_mutex_lock :: "'k handler \<Rightarrow> nat \<Rightarrow> 'k world \<Rightarrow> unit outcome \<times> 'k world" where
  "simcall_mutex_lock handle mutex w = simcall_BODY handle (SIMCALL_MUTEX_LOCK mutex) w"

definition simcall_cond_wait_timeout ::
    "'k handler \<Rightarrow> nat \<Rightarrow> nat \<Rightarrow> real \<Rightarrow> 'k world \<Rightarrow> unit outcome \<times> 'k world" where
  "simcall_cond_wait_timeout handle cond mutex timeout_arg w =
     simcall_BODY handle (SIMCALL_COND_WAIT_TIMEOUT cond mutex timeout_arg) w"

subsection \<open>Sleeping\<close>

definition sleep_for :: "'k handler \<Rightarrow> real \<Rightarrow> 'k world \<Rightarrow> unit outcome \<times> 'k world" where
  "sleep_for handle duration w =
     (if duration > 0 then simcall_process_sleep handle duration w else (Returns (), w))"

text \<open>
  \<^verbatim>\<open>sleep_until\<close>; \<open>minus_double a b\<close> is the double that \<^verbatim>\<open>a - b\<close> computes.
\<close>

definition sleep_until ::
    "'k handler \<Rightarrow> (real \<Rightarrow> real \<Rightarrow> real) \<Rightarrow> real \<Rightarrow> 'k world \<Rightarrow> unit outcome \<times> 'k world" where
  "sleep_until handle minus_double timeout_time w =
     (let now = SIMIX_get_clock w
      in if timeout_time > now then simcall_process_sleep handle (minus_double timeout_time now) w
         else (Returns (), w))"

subsection \<open>Mutex and condition variable\<close>

datatype cv_status = no_timeout | timeout

text \<open>\<^verbatim>\<open>Mutex::lock\<close>; the mutex is its \<^verbatim>\<open>mutex_\<close>.\<close>

definition Mutex_lock :: "'k handler \<Rightarrow> nat \<Rightarrow> 'k world \<Rightarrow> unit outcome \<times> 'k world" where
  "Mutex_lock handle mutex w = simcall_mutex_lock handle mutex w"

text \<open>
  \<^verbatim>\<open>ConditionVariable::wait_for(lock, timeout)\<close> on doubles. \<open>cond\<close> is \<^verbatim>\<open>cond_\<close>
  and \<open>lock_mutex\<close> is \<^verbatim>\<open>lock.mutex()\<close>. The two \<^verbatim>\<open>catch (...)\<close> clauses and the
  fall-through after the category test all call \<^verbatim>\<open>std::terminate\<close>.
\<close>

definition ConditionVariable_wait_for ::
    "'k handler \<Rightarrow> nat \<Rightarrow> nat \<Rightarrow> real \<Rightarrow> 'k world \<Rightarrow> cv_status outcome \<times> 'k world" where
  "ConditionVariable_wait_for handle cond lock_mutex duration w =
     (let timeout_arg = (if duration < 0 then 0 else duration) in
      case simcall_cond_wait_timeout handle cond lock_mutex timeout_arg w of
        (Returns _, w1) \<Rightarrow> (Returns no_timeout, w1)
      | (Throws (xbt_ex category), w1) \<Rightarrow>
          if category = timeout_error then
            (case Mutex_lock handle lock_mutex w1 of
               (Returns _, w2) \<Rightarrow> (Returns timeout, w2)
             | (Throws _, w2) \<Rightarrow> (Aborts std_terminate, w2)
             | (Aborts a, w2) \<Rightarrow> (Aborts a, w2))
          else (Aborts std_terminate, w1)
      | (Throws _, w1) \<Rightarrow> (Aborts std_terminate, w1)
      | (Aborts a, w1) \<Rightarrow> (Aborts a, w1))"

text \<open>Sample kernels and a sample actor for the closed instances below.\<close>

definition kernel_completes :: "unit handler" where
  "kernel_completes call w = (Returns (), w)"

definition kernel_times_out :: "unit handler" where
  "kernel_times_out call w =
     (case call of
        SIMCALL_COND_WAIT_TIMEOUT c m t \<Rightarrow> (Throws (xbt_ex timeout_error), w)
      | _ \<Rightarrow> (Returns (), w))"

definition kernel_fails_lock :: "unit handler" where
  "kernel_fails_lock call w =
     (case call of
        SIMCALL_COND_WAIT_TIMEOUT c m t \<Rightarrow> (Throws (xbt_ex timeout_error), w)
      | _ \<Rightarrow> (Throws (user_exception 1), w))"

definition actor_world :: "unit world" where
  "actor_world =
     \<lparr>SIMIX_is_maestro = False, SIMIX_process_self = 1, SIMIX_get_clock = 10, simcalls = [],
      kernel_state = ()\<rparr>"

section \<open>Generic simcalls\<close>

text \<open>
  Modelled from the spec: the methods of \<^verbatim>\<open>simgrid::xbt::Result\<close> are declared in the
  sources without their bodies. By the spec the holder has one slot, which is set with a
  value or with an exception and consumed by \<^verbatim>\<open>get\<close>, which returns the value or
  rethrows the exception. The spec says nothing of \<^verbatim>\<open>get\<close> on a holder that was never
  set, and nothing below reads one; the model lets it throw a \<open>logic_error\<close>.
\<close>

definition Result_set_value :: "'r \<Rightarrow> 'r Result \<Rightarrow> 'r Result" where
  "Result_set_value v result = Result_value v"

definition Result_set_exception :: "exn \<Rightarrow> 'r Result \<Rightarrow> 'r Result" where
  "Result_set_exception e result = Result_exception e"

definition Result_get :: "'r Result \<Rightarrow> 'r outcome \<times> 'r Result" where
  "Result_get result =
     (case result of
        Result_invalid \<Rightarrow> (Throws (logic_error ''Invalid result''), Result_invalid)
      | Result_value v \<Rightarrow> (Returns v, Result_invalid)
      | Result_exception e \<Rightarrow> (Throws e, Result_invalid))"

text \<open>Code that runs in the kernel acts on the state of the kernel only.\<close>

definition in_kernel :: "('k \<Rightarrow> 'r outcome \<times> 'k) \<Rightarrow> 'k world \<Rightarrow> 'r outcome \<times> 'k world" where
  "in_kernel code w = (case code (kernel_state w) of (r, k) \<Rightarrow> (r, w\<lparr>kernel_state := k\<rparr>))"

text \<open>
  Modelled from the spec: \<^verbatim>\<open>simcall_BODY_run_kernel\<close> and
  \<^verbatim>\<open>simcall_BODY_run_blocking\<close> are generated code that is not among the sources. By
  the spec the actor traps into the kernel, which runs the closure to completion in maestro
  context; after an immediate simcall the actor is runnable again, after a blocking one it
  stays blocked until something calls \<^verbatim>\<open>unblock\<close> on it. In both the request is recorded
  and the closure sees maestro as the running context. The closure of the immediate
  simcall carries the local variables that it has captured by reference.
\<close>

definition simcall_run_kernel ::
    "('c \<times> 'k world \<Rightarrow> unit outcome \<times> 'c \<times> 'k world) \<Rightarrow> 'c \<times> 'k world \<Rightarrow>
     unit outcome \<times> 'c \<times> 'k world" where
  "simcall_run_kernel code cw =
     (case cw of (captured, w) \<Rightarrow>
        (case code (captured, w\<lparr>SIMIX_is_maestro := True, simcalls := simcalls w @ [SIMCALL_RUN_KERNEL]\<rparr>) of
           (r, captured', w') \<Rightarrow> (r, captured', w'\<lparr>SIMIX_is_maestro := SIMIX_is_maestro w\<rparr>)))"

definition simcall_run_blocking :: "'k world action \<Rightarrow> 'k world action" where
  "simcall_run_blocking code w =
     (case code (w\<lparr>SIMIX_is_maestro := True, simcalls := simcalls w @ [SIMCALL_RUN_BLOCKING]\<rparr>) of
        (r, w') \<Rightarrow> (r, w'\<lparr>SIMIX_is_maestro := SIMIX_is_maestro w\<rparr>))"

subsection \<open>kernelImmediate\<close>

text \<open>
  The closure that \<^verbatim>\<open>kernelImmediate\<close> hands to the simcall, on the captured
  \<^verbatim>\<open>result\<close> and the world: the assertion, then \<^verbatim>\<open>fulfillPromise(result, code)\<close>.
\<close>

definition kernelImmediate_closure ::
    "('k \<Rightarrow> 'r outcome \<times> 'k) \<Rightarrow> 'r Result \<times> 'k world \<Rightarrow> unit outcome \<times> 'r Result \<times> 'k world" where
  "kernelImmediate_closure code cw =
     (if \<not> SIMIX_is_maestro (snd cw) then (Aborts (xbt_assert ''Not in maestro''), cw)
      else
        fulfillPromise
          (\<lambda>v (result, w). (Returns (), Result_set_value v result, w))
          (\<lambda>e (result, w). (Returns (), Result_set_exception e result, w))
          (\<lambda>(result, w). case in_kernel code w of (r, w') \<Rightarrow> (r, result, w'))
          cw)"

definition kernelImmediate :: "('k \<Rightarrow> 'r outcome \<times> 'k) \<Rightarrow> 'k world \<Rightarrow> 'r outcome \<times> 'k world" where
  "kernelImmediate code w =
     (if SIMIX_is_maestro w then in_kernel code w
      else
        (case simcall_run_kernel (kernelImmediate_closure code) (Result_invalid, w) of
           (Returns _, result, w1) \<Rightarrow> (fst (Result_get result), w1)
         | (Throws e, result, w1) \<Rightarrow> (Throws e, w1)
         | (Aborts a, result, w1) \<Rightarrow> (Aborts a, w1)))"

subsection \<open>kernelSync\<close>

text \<open>
  The continuations without result that the kernel may hold: those of the user, and the
  lambda that \<^verbatim>\<open>kernelSync\<close> attaches, which captures \<^verbatim>\<open>self\<close> and, by reference,
  the \<^verbatim>\<open>result\<close> of that actor.
\<close>

datatype 'g blocking_continuation = user_continuation 'g | kernelSync_continuation nat

text \<open>
  Modelled from the spec: \<^verbatim>\<open>simgrid::simix::unblock\<close> is not among the sources. By the
  spec it puts the actor back on the to-run list.
\<close>

definition unblock :: "nat \<Rightarrow> ('v, 'f, 'g) kernel \<Rightarrow> ('v, 'f, 'g) kernel" where
  "unblock actor K = K\<lparr>process_to_run := process_to_run K @ [actor]\<rparr>"

text \<open>The \<^verbatim>\<open>result\<close> of an actor as a promise: its two setters on the kernel.\<close>

definition result_set_value ::
    "nat \<Rightarrow> 'v \<Rightarrow> ('v, 'f, 'g) kernel \<Rightarrow> unit outcome \<times> ('v, 'f, 'g) kernel" where
  "result_set_value self v K =
     (Returns (), K\<lparr>results := (results K)(self := Result_set_value v (results K self))\<rparr>)"

definition result_set_exception ::
    "nat \<Rightarrow> exn \<Rightarrow> ('v, 'f, 'g) kernel \<Rightarrow> unit outcome \<times> ('v, 'f, 'g) kernel" where
  "result_set_exception self e K =
     (Returns (), K\<lparr>results := (results K)(self := Result_set_exception e (results K self))\<rparr>)"

text \<open>\<^verbatim>\<open>setPromise(promise, future)\<close>: fulfil the promise with \<^verbatim>\<open>future.get()\<close>.\<close>

definition setPromise ::
    "('v \<Rightarrow> ('v, 'f, 'g) kernel \<Rightarrow> unit outcome \<times> ('v, 'f, 'g) kernel) \<Rightarrow>
     (exn \<Rightarrow> ('v, 'f, 'g) kernel \<Rightarrow> unit outcome \<times> ('v, 'f, 'g) kernel) \<Rightarrow>
     Future \<Rightarrow> ('v, 'f, 'g) kernel \<Rightarrow> unit outcome \<times> ('v, 'f, 'g) kernel" where
  "setPromise promise_set_value promise_set_exception future K =
     fulfillPromise promise_set_value promise_set_exception
       (\<lambda>K. case Future_get future K of (r, _, K1) \<Rightarrow> (r, K1)) K"

text \<open>The lambda of \<^verbatim>\<open>kernelSync\<close>, applied to the future \<open>value\<close>.\<close>

definition kernelSync_lambda ::
    "nat \<Rightarrow> Future \<Rightarrow> ('v, 'f, 'g) kernel \<Rightarrow> unit outcome \<times> ('v, 'f, 'g) kernel" where
  "kernelSync_lambda self value_future K =
     (case setPromise (result_set_value self) (result_set_exception self) value_future K of
        (Returns _, K1) \<Rightarrow> (Returns (), unblock self K1)
      | (Throws e, K1) \<Rightarrow> (Throws e, K1)
      | (Aborts a, K1) \<Rightarrow> (Aborts a, K1))"

definition call_blocking ::
    "('g \<Rightarrow> Future \<Rightarrow> ('v, 'f, 'g blocking_continuation) kernel \<Rightarrow>
        unit outcome \<times> ('v, 'f, 'g blocking_continuation) kernel) \<Rightarrow>
     'g blocking_continuation \<Rightarrow> Future \<Rightarrow> ('v, 'f, 'g blocking_continuation) kernel \<Rightarrow>
     unit outcome \<times> ('v, 'f, 'g blocking_continuation) kernel" where
  "call_blocking call_void continuation future K =
     (case continuation of
        user_continuation g \<Rightarrow> call_void g future K
      | kernelSync_continuation self \<Rightarrow> kernelSync_lambda self future K)"

text \<open>
  The closure that \<^verbatim>\<open>kernelSync\<close> hands to the blocking simcall: the \<^verbatim>\<open>try\<close> block,
  which runs \<open>code\<close> and attaches the lambda to the future it returns, and the
  \<^verbatim>\<open>catch (...)\<close>, which stores the exception and unblocks the actor.
\<close>

definition kernelSync_try ::
    "(('v, 'f, 'g blocking_continuation) kernel \<Rightarrow>
        Future outcome \<times> ('v, 'f, 'g blocking_continuation) kernel) \<Rightarrow>
     nat \<Rightarrow> ('v, 'f, 'g blocking_continuation) kernel \<Rightarrow>
     unit outcome \<times> ('v, 'f, 'g blocking_continuation) kernel" where
  "kernelSync_try code self K =
     (case code K of
        (Returns future, K1) \<Rightarrow>
          (case Future_then_void future (kernelSync_continuation self) K1 of (r, _, K2) \<Rightarrow> (r, K2))
      | (Throws e, K1) \<Rightarrow> (Throws e, K1)
      | (Aborts a, K1) \<Rightarrow> (Aborts a, K1))"

definition kernelSync_closure ::
    "(('v, 'f, 'g blocking_continuation) kernel \<Rightarrow>
        Future outcome \<times> ('v, 'f, 'g blocking_continuation) kernel) \<Rightarrow>
     nat \<Rightarrow> ('v, 'f, 'g blocking_continuation) kernel \<Rightarrow>
     unit outcome \<times> ('v, 'f, 'g blocking_continuation) kernel" where
  "kernelSync_closure code self K =
     (case kernelSync_try code self K of
        (Returns u, K1) \<Rightarrow> (Returns u, K1)
      | (Throws e, K1) \<Rightarrow> (Returns (), unblock self (snd (result_set_exception self e K1)))
      | (Aborts a, K1) \<Rightarrow> (Aborts a, K1))"

text \<open>
  \<^verbatim>\<open>kernelSync\<close> in the two parts between which the actor is blocked: everything up to
  the return of the kernel from the blocking simcall, and, once the actor runs again,
  \<^verbatim>\<open>return result.get()\<close>. The \<^verbatim>\<open>result\<close> of the actor starts invalid.
\<close>

definition kernelSync_blocks ::
    "(('v, 'f, 'g blocking_continuation) kernel \<Rightarrow>
        Future outcome \<times> ('v, 'f, 'g blocking_continuation) kernel) \<Rightarrow>
     ('v, 'f, 'g blocking_continuation) kernel world action" where
  "kernelSync_blocks code w =
     (if SIMIX_is_maestro w then (Aborts (xbt_die ''Can't execute blocking call in kernel mode''), w)
      else
        let self = SIMIX_process_self w;
            w0 = w\<lparr>kernel_state :=
                   (kernel_state w)\<lparr>results := (results (kernel_state w))(self := Result_invalid)\<rparr>\<rparr>
        in simcall_run_blocking (in_kernel (kernelSync_closure code self)) w0)"

definition kernelSync_resumes ::
    "('v, 'f, 'g) kernel world \<Rightarrow> 'v outcome \<times> ('v, 'f, 'g) kernel world" where
  "kernelSync_resumes w =
     (let self = SIMIX_process_self w;
          K = kernel_state w
      in case Result_get (results K self) of
           (r, result) \<Rightarrow> (r, w\<lparr>kernel_state := K\<lparr>results := (results K)(self := result)\<rparr>\<rparr>))"

section \<open>Boost contexts\<close>

text \<open>
  A context is the maestro context (\<^verbatim>\<open>maestro_context_\<close>) or the context of an actor
  (\<^verbatim>\<open>process->context\<close>). The context that runs is the one set by
  \<^verbatim>\<open>SIMIX_context_set_current\<close> and entered by \<^verbatim>\<open>BoostContext::swap\<close>.
  \<^verbatim>\<open>process_index_\<close> is an \<^verbatim>\<open>unsigned long\<close>, of 64 bits.
\<close>

datatype smx_context = maestro_context | process_context nat

record serial = simix_global +
  process_index :: "64 word"
  current_context :: smx_context

definition SerialBoostContext_suspend :: "serial \<Rightarrow> serial" where
  "SerialBoostContext_suspend g =
     (let i = process_index g;
          g1 = g\<lparr>process_index := process_index g + 1\<rparr>;
          next_context =
            (if unat i < length (process_to_run g1) then process_context (process_to_run g1 ! unat i)
             else maestro_context)
      in g1\<lparr>current_context := next_context\<rparr>)"

definition SerialBoostContext_resume :: "smx_context \<Rightarrow> serial \<Rightarrow> serial" where
  "SerialBoostContext_resume this g = g\<lparr>current_context := this\<rparr>"

text \<open>\<^verbatim>\<open>BoostContextFactory::run_all\<close> of a factory whose \<^verbatim>\<open>parallel_\<close> is false.\<close>

definition BoostContextFactory_run_all :: "serial \<Rightarrow> serial" where
  "BoostContextFactory_run_all g =
     (case process_to_run g of
        [] \<Rightarrow> g
      | first_process # _ \<Rightarrow>
          SerialBoostContext_resume (process_context first_process) (g\<lparr>process_index := 1\<rparr>))"

text \<open>
  A round of the serial variant. The actor whose context runs executes its own code, which
  leaves the list of actors to run alone, up to its next simcall or to its end, where it
  calls \<^verbatim>\<open>suspend\<close>; this repeats until the maestro context runs again. The result is
  the list of the actors that ran, in the order in which they were resumed, or \<open>None\<close> when
  the fuel is used up before control is back in maestro.
\<close>

fun serial_round :: "nat \<Rightarrow> serial \<Rightarrow> (nat list \<times> serial) option" where
  "serial_round 0 g =
     (case current_context g of
        maestro_context \<Rightarrow> Some ([], g)
      | process_context p \<Rightarrow> None)"
| "serial_round (Suc fuel) g =
     (case current_context g of
        maestro_context \<Rightarrow> Some ([], g)
      | process_context p \<Rightarrow>
          (case serial_round fuel (SerialBoostContext_suspend g) of
             None \<Rightarrow> None
           | Some (resumed, g') \<Rightarrow> Some (p # resumed, g')))"

text \<open>
  The entry trampoline and the stop path. \<open>code\<close> is the actor's code
  (\<^verbatim>\<open>(*context)()\<close>), \<open>Context_stop\<close> the base-class \<^verbatim>\<open>Context::stop\<close>, which is not
  among the sources, and \<open>suspend\<close> the \<^verbatim>\<open>suspend\<close> of the context.
\<close>

definition BoostContext_stop :: "'w action \<Rightarrow> 'w action" where
  "BoostContext_stop Context_stop w =
     (case Context_stop w of
        (Returns _, w1) \<Rightarrow> (Throws StopRequest, w1)
      | (Throws e, w1) \<Rightarrow> (Throws e, w1)
      | (Aborts a, w1) \<Rightarrow> (Aborts a, w1))"

definition wrapper_try :: "'w action \<Rightarrow> 'w action \<Rightarrow> 'w action" where
  "wrapper_try code Context_stop w =
     (case code w of
        (Returns _, w1) \<Rightarrow> Context_stop w1
      | (Throws e, w1) \<Rightarrow> (Throws e, w1)
      | (Aborts a, w1) \<Rightarrow> (Aborts a, w1))"

definition BoostContext_wrapper :: "'w action \<Rightarrow> 'w action \<Rightarrow> 'w action \<Rightarrow> 'w action" where
  "BoostContext_wrapper code Context_stop suspend w =
     (case wrapper_try code Context_stop w of
        (Returns _, w1) \<Rightarrow> suspend w1
      | (Throws e, w1) \<Rightarrow> (if e = StopRequest then suspend w1 else (Throws e, w1))
      | (Aborts a, w1) \<Rightarrow> (Aborts a, w1))"

text \<open>
  The constructor of \<^verbatim>\<open>BoostContext\<close> hands \<^verbatim>\<open>wrapper\<close> to \<^verbatim>\<open>make_fcontext\<close> as
  the entry function of the new stack. No frame lies below an entry function, so an
  exception that leaves it finds no handler and the C++ runtime calls \<^verbatim>\<open>std::terminate\<close>.
\<close>

definition fcontext_entry :: "'w action \<Rightarrow> 'w action" where
  "fcontext_entry entry w =
     (case entry w of
        (Returns u, w1) \<Rightarrow> (Returns u, w1)
      | (Throws e, w1) \<Rightarrow> (Aborts std_terminate, w1)
      | (Aborts a, w1) \<Rightarrow> (Aborts a, w1))"

text \<open>Sample scheduler states and actor codes for the closed instances below.\<close>

definition three_to_run :: serial where
  "three_to_run =
     \<lparr>process_to_run = [5, 3, 8], process_index = 0, current_context = maestro_context\<rparr>"

definition serial_suspend :: "serial action" where
  "serial_suspend g = (Returns (), SerialBoostContext_suspend g)"

definition cleanup_runs :: "serial action" where
  "cleanup_runs g = (Returns (), g)"

definition code_fails :: "serial action" where
  "code_fails g = (Throws (user_exception 9), g)"

text \<open>Sample continuations, kernels and kernel codes for the closed instances below.\<close>

definition add_one :: "unit \<Rightarrow> Future \<Rightarrow> (nat, unit, unit) kernel \<Rightarrow> nat outcome \<times> (nat, unit, unit) kernel" where
  "add_one f future K =
     (case Future_get future K of
        (Returns v, _, K1) \<Rightarrow> (Returns (v + 1), K1)
      | (Throws e, _, K1) \<Rightarrow> (Throws e, K1)
      | (Aborts a, _, K1) \<Rightarrow> (Aborts a, K1))"

definition no_void :: "unit \<Rightarrow> Future \<Rightarrow> (nat, unit, unit) kernel \<Rightarrow> unit outcome \<times> (nat, unit, unit) kernel" where
  "no_void g future K = (Returns (), K)"

definition pending_kernel :: "(nat, unit, unit) kernel" where
  "pending_kernel = kernel_of state_pending"

definition chained_kernel :: "(nat, unit, unit) kernel" where
  "chained_kernel = snd (set_value 0 41 (snd (snd (Future_thenNoUnwrap (Some 0) () pending_kernel))))"

definition answer :: "unit \<Rightarrow> nat outcome \<times> unit" where
  "answer k = (Returns 42, k)"

definition failure :: "unit \<Rightarrow> nat outcome \<times> unit" where
  "failure k = (Throws (user_exception 3), k)"

definition sync_world :: "(nat, unit, unit blocking_continuation) kernel world" where
  "sync_world =
     \<lparr>SIMIX_is_maestro = False, SIMIX_process_self = 1, SIMIX_get_clock = 0, simcalls = [],
      kernel_state = kernel_of new_state\<rparr>"

definition returns_invalid_future ::
    "(nat, unit, unit blocking_continuation) kernel \<Rightarrow>
     Future outcome \<times> (nat, unit, unit blocking_continuation) kernel" where
  "returns_invalid_future K = (Returns None, K)"

definition returns_pending_future ::
    "(nat, unit, unit blocking_continuation) kernel \<Rightarrow>
     Future outcome \<times> (nat, unit, unit blocking_continuation) kernel" where
  "returns_pending_future K = (Returns (Some 0), K)"

definition throws_at_once ::
    "(nat, unit, unit blocking_continuation) kernel \<Rightarrow>
     Future outcome \<times> (nat, unit, unit blocking_continuation) kernel" where
  "throws_at_once K = (Throws (user_exception 4), K)"

section \<open>Properties of the kernel future\<close>

lemma SharedState_get_not_ready:
  "state_status s \<noteq> ready \<Longrightarrow>
     SharedState_get s = (Aborts (xbt_die ''Deadlock: this future is not ready''), s)"
  by (simp add: SharedState_get_def)

lemma SharedState_get_exception:
  "state_status s = ready \<Longrightarrow> state_exception s = Some e \<Longrightarrow>
     SharedState_get s = (Throws e, s\<lparr>state_status := done, state_exception := None\<rparr>)"
  by (simp add: SharedState_get_def)

lemma SharedState_get_value:
  "state_status s = ready \<Longrightarrow> state_exception s = None \<Longrightarrow> state_value s = Some v \<Longrightarrow>
     SharedState_get s = (Returns v, s\<lparr>state_status := done, state_value := None\<rparr>)"
  by (simp add: SharedState_get_def)

lemma SharedState_get_empty:
  "state_status s = ready \<Longrightarrow> state_exception s = None \<Longrightarrow> state_value s = None \<Longrightarrow>
     SharedState_get s = (Aborts (xbt_assert ''this->value_''), s\<lparr>state_status := done\<rparr>)"
  by (simp add: SharedState_get_def)

text \<open>
  C1. \<^verbatim>\<open>Future::get\<close> is a total function of the handle and the kernel state that
  issues no simcall and waits for nothing. On a handle without shared state it throws
  \<open>future_error no_state\<close>; on a state whose status is not \<open>ready\<close> it fails with the
  deadlock error of \<^verbatim>\<open>xbt_die\<close>; on a ready state it rethrows the stored exception, or
  else returns the stored value.
\<close>

theorem Future_get_never_blocks:
  "fst (Future_get None K) = Throws (future_error no_state) \<and>
   (state_status (states K a) \<noteq> ready \<longrightarrow>
      fst (Future_get (Some a) K) = Aborts (xbt_die ''Deadlock: this future is not ready'')) \<and>
   (state_status (states K a) = ready \<and> state_exception (states K a) = Some e \<longrightarrow>
      fst (Future_get (Some a) K) = Throws e) \<and>
   (state_status (states K a) = ready \<and> state_exception (states K a) = None \<and>
    state_value (states K a) = Some v \<longrightarrow>
      fst (Future_get (Some a) K) = Returns v)"
  by (simp add: Future_get_def SharedState_get_not_ready SharedState_get_exception
      SharedState_get_value split: prod.splits)

theorem Future_get_never_blocks_witness:
  "fst (Future_get None (kernel_of state_pending)) = Throws (future_error no_state) \<and>
   fst (Future_get (Some 0) (kernel_of state_pending)) =
     Aborts (xbt_die ''Deadlock: this future is not ready'') \<and>
   fst (Future_get (Some 0) (kernel_of state_with_exception)) = Throws (user_exception 7) \<and>
   fst (Future_get (Some 0) (kernel_of state_with_value)) = Returns 42"
  using Future_get_never_blocks [of "kernel_of state_pending" 0 "user_exception 7" 42]
    Future_get_never_blocks [of "kernel_of state_with_exception" 0 "user_exception 7" 42]
    Future_get_never_blocks [of "kernel_of state_with_value" 0 "user_exception 7" 42]
  by (simp add: kernel_of_def state_pending_def state_with_exception_def state_with_value_def)

text \<open>
  C3. On a state whose status is \<open>ready\<close>, \<^verbatim>\<open>SharedState::get\<close> leaves the status
  \<open>done\<close> and the exception storage empty. When it returns a value, that value is the
  stored one and the optional is reset; when it rethrows, the exception is the stored one
  and its pointer has been moved out (the value storage is as it was, hence empty when the
  state held only the exception). A second \<^verbatim>\<open>get\<close> on the resulting state obtains
  nothing: it fails with the deadlock error.
\<close>

theorem SharedState_get_consumes:
  assumes "state_status s = ready" and "SharedState_get s = (r, s')"
  shows "state_status s' = done \<and> state_exception s' = None \<and>
         (\<forall>v. r = Returns v \<longrightarrow> state_value s = Some v \<and> state_value s' = None) \<and>
         (\<forall>e. r = Throws e \<longrightarrow> state_exception s = Some e \<and> state_value s' = state_value s) \<and>
         SharedState_get s' = (Aborts (xbt_die ''Deadlock: this future is not ready''), s')"
proof (cases "state_exception s")
  case (Some e)
  with assms SharedState_get_exception [of s e]
  have "r = Throws e" and "s' = s\<lparr>state_status := done, state_exception := None\<rparr>"
    by simp_all
  with Some show ?thesis
    by (simp add: SharedState_get_not_ready)
next
  case None
  show ?thesis
  proof (cases "state_value s")
    case (Some v)
    with assms None SharedState_get_value [of s v]
    have "r = Returns v" and "s' = s\<lparr>state_status := done, state_value := None\<rparr>"
      by simp_all
    with None Some show ?thesis
      by (simp add: SharedState_get_not_ready)
  next
    case no_value: None
    with assms None SharedState_get_empty [of s]
    have "r = Aborts (xbt_assert ''this->value_'')" and "s' = s\<lparr>state_status := done\<rparr>"
      by simp_all
    with None show ?thesis
      by (simp add: SharedState_get_not_ready)
  qed
qed

theorem SharedState_get_consumes_witness:
  "state_status (snd (SharedState_get state_with_value)) = done \<and>
   state_value (snd (SharedState_get state_with_value)) = None \<and>
   state_exception (snd (SharedState_get state_with_exception)) = None \<and>
   fst (SharedState_get (snd (SharedState_get state_with_value))) =
     Aborts (xbt_die ''Deadlock: this future is not ready'')"
proof -
  have ready: "state_status state_with_value = ready" "state_status state_with_exception = ready"
    by (simp_all add: state_with_value_def state_with_exception_def)
  have returned: "fst (SharedState_get state_with_value) = Returns 42"
    by (simp add: SharedState_get_def state_with_value_def)
  from SharedState_get_consumes [OF ready(1) surjective_pairing]
    SharedState_get_consumes [OF ready(2) surjective_pairing] returned
  show ?thesis
    by simp
qed

lemma thenNoUnwrap_invalid:
  "Future_thenNoUnwrap None f K = (Throws (future_error no_state), None, K)"
  by (simp add: Future_thenNoUnwrap_def)

lemma then_void_invalid:
  "Future_then_void None g K = (Throws (future_error no_state), None, K)"
  by (simp add: Future_then_void_def)

lemma thenNoUnwrap_valid:
  "Future_thenNoUnwrap (Some a) f K =
     (Returns (Some (next_state K)), None,
      set_continuation a (thenNoUnwrap_task (Promise (Some (next_state K)) True) a f)
        (snd (Promise_new K)))"
  by (simp add: Future_thenNoUnwrap_def Promise_new_def Promise_get_future_def)

lemma then_void_valid:
  "Future_then_void (Some a) g K = (Returns (), None, set_continuation a (then_task g a) K)"
  by (simp add: Future_then_void_def)

lemma set_continuation_pending:
  "state_status (states K a) \<noteq> ready \<Longrightarrow>
     states (set_continuation a task K) = (states K)(a := (states K a)\<lparr>state_continuation := Some task\<rparr>) \<and>
     ready_list (set_continuation a task K) = ready_list K \<and>
     next_state (set_continuation a task K) = next_state K"
  by (simp add: set_continuation_def)

lemma set_continuation_ready:
  "state_status (states K a) = ready \<Longrightarrow>
     states (set_continuation a task K) = states K \<and>
     ready_list (set_continuation a task K) = ready_list K @ [task] \<and>
     next_state (set_continuation a task K) = next_state K"
  by (simp add: set_continuation_def schedule_def)

lemma Promise_new_states:
  "states (snd (Promise_new K)) = (states K)(next_state K := new_state) \<and>
   ready_list (snd (Promise_new K)) = ready_list K"
  by (simp add: Promise_new_def)

lemma set_value_pending:
  "state_status (states K p) = not_ready \<Longrightarrow>
     fst (set_value p v K) = Returns () \<and>
     state_status (states (snd (set_value p v K)) p) = ready \<and>
     state_value (states (snd (set_value p v K)) p) = Some v \<and>
     state_exception (states (snd (set_value p v K)) p) = state_exception (states K p)"
  by (simp add: set_value_def set_ready_def schedule_def split: option.splits)

lemma set_exception_pending:
  "state_status (states K p) = not_ready \<Longrightarrow>
     fst (set_exception p e K) = Returns () \<and>
     state_status (states (snd (set_exception p e K)) p) = ready \<and>
     state_exception (states (snd (set_exception p e K)) p) = Some e"
  by (simp add: set_exception_def set_ready_def schedule_def split: option.splits)

lemma run_thenNoUnwrap_task_value:
  assumes "call f (Some a) K2 = (Returns r, K3)"
    and "state_status (states K3 p) = not_ready"
  shows "fst (run_task call call_void (thenNoUnwrap_task (Promise (Some p) True) a f) K2) = Returns () \<and>
         state_status (states (snd (run_task call call_void (thenNoUnwrap_task (Promise (Some p) True) a f) K2)) p) = ready \<and>
         state_value (states (snd (run_task call call_void (thenNoUnwrap_task (Promise (Some p) True) a f) K2)) p) = Some r \<and>
         state_exception (states (snd (run_task call call_void (thenNoUnwrap_task (Promise (Some p) True) a f) K2)) p) =
           state_exception (states K3 p)"
proof -
  obtain u K4 where sv: "set_value p r K3 = (u, K4)"
    by (cases "set_value p r K3")
  with set_value_pending [OF assms(2), of r] have u: "u = Returns ()"
    and K4: "state_status (states K4 p) = ready" "state_value (states K4 p) = Some r"
      "state_exception (states K4 p) = state_exception (states K3 p)"
    by simp_all
  have "run_task call call_void (thenNoUnwrap_task (Promise (Some p) True) a f) K2 = (Returns (), K4)"
    using assms(1) sv u
    by (simp add: run_task_def fulfillPromise_def Promise_set_value_def)
  with K4 show ?thesis by simp
qed

lemma run_thenNoUnwrap_task_exception:
  assumes "call f (Some a) K2 = (Throws e, K3)"
    and "state_status (states K3 p) = not_ready"
  shows "fst (run_task call call_void (thenNoUnwrap_task (Promise (Some p) True) a f) K2) = Returns () \<and>
         state_status (states (snd (run_task call call_void (thenNoUnwrap_task (Promise (Some p) True) a f) K2)) p) = ready \<and>
         state_exception (states (snd (run_task call call_void (thenNoUnwrap_task (Promise (Some p) True) a f) K2)) p) = Some e"
proof -
  have "run_task call call_void (thenNoUnwrap_task (Promise (Some p) True) a f) K2 = set_exception p e K3"
    using assms(1)
    by (simp add: run_task_def fulfillPromise_def Promise_set_exception_def)
  with set_exception_pending [OF assms(2), of e] show ?thesis by simp
qed

lemma Future_get_value:
  "state_status (states K p) = ready \<Longrightarrow> state_exception (states K p) = None \<Longrightarrow>
   state_value (states K p) = Some r \<Longrightarrow> fst (Future_get (Some p) K) = Returns r"
  by (simp add: Future_get_def SharedState_get_value split: prod.splits)

lemma Future_get_exception:
  "state_status (states K p) = ready \<Longrightarrow> state_exception (states K p) = Some e \<Longrightarrow>
     fst (Future_get (Some p) K) = Throws e"
  by (simp add: Future_get_def SharedState_get_exception split: prod.splits)

text \<open>
  C2. On a handle without shared state \<^verbatim>\<open>then\<close> and \<^verbatim>\<open>then_\<close> throw
  \<open>future_error no_state\<close>. On a handle to an allocated state \<open>a\<close> both leave the
  handle invalid and move the state into the stored task: the task is kept as the
  continuation of \<open>a\<close> when \<open>a\<close> is not ready and is put on the ready list when it is.
  \<^verbatim>\<open>then\<close> returns a future on a new state \<open>p\<close>; whenever its task runs while \<open>p\<close>
  is still unset, the value that the continuation returns becomes the value that
  \<^verbatim>\<open>get\<close> on the new future returns, and an exception that the continuation throws
  becomes the exception that \<^verbatim>\<open>get\<close> rethrows.
\<close>

theorem then_consumes_handle:
  fixes K :: "('v, 'f, 'g) kernel" and a :: nat and f :: 'f and g :: 'g
  assumes "a < next_state K"
  defines "p \<equiv> next_state K"
  defines "task \<equiv> thenNoUnwrap_task (Promise (Some p) True) a f"
  defines "K' \<equiv> snd (snd (Future_thenNoUnwrap (Some a) f K))"
  defines "K'' \<equiv> snd (snd (Future_then_void (Some a) g K))"
  shows "fst (Future_thenNoUnwrap None f K) = Throws (future_error no_state) \<and>
         fst (Future_then_void None g K) = Throws (future_error no_state) \<and>
         fst (Future_thenNoUnwrap (Some a) f K) = Returns (Some p) \<and>
         \<not> Future_valid (fst (snd (Future_thenNoUnwrap (Some a) f K))) \<and>
         states K' p = new_state \<and>
         (state_status (states K a) \<noteq> ready \<longrightarrow>
            state_continuation (states K' a) = Some task \<and> ready_list K' = ready_list K) \<and>
         (state_status (states K a) = ready \<longrightarrow> ready_list K' = ready_list K @ [task]) \<and>
         fst (Future_then_void (Some a) g K) = Returns () \<and>
         \<not> Future_valid (fst (snd (Future_then_void (Some a) g K))) \<and>
         (state_status (states K a) \<noteq> ready \<longrightarrow>
            state_continuation (states K'' a) = Some (then_task g a) \<and> ready_list K'' = ready_list K) \<and>
         (state_status (states K a) = ready \<longrightarrow> ready_list K'' = ready_list K @ [then_task g a]) \<and>
         (\<forall>K2 K3 r. call f (Some a) K2 = (Returns r, K3) \<and> state_status (states K3 p) = not_ready \<and>
              state_exception (states K3 p) = None \<longrightarrow>
            fst (run_task call call_void task K2) = Returns () \<and>
            fst (Future_get (Some p) (snd (run_task call call_void task K2))) = Returns r) \<and>
         (\<forall>K2 K3 e. call f (Some a) K2 = (Throws e, K3) \<and> state_status (states K3 p) = not_ready \<longrightarrow>
            fst (run_task call call_void task K2) = Returns () \<and>
            fst (Future_get (Some p) (snd (run_task call call_void task K2))) = Throws e)"
proof -
  let ?K1 = "snd (Promise_new K)"
  have K': "K' = set_continuation a task ?K1"
    by (simp add: K'_def task_def p_def thenNoUnwrap_valid)
  have K'': "K'' = set_continuation a (then_task g a) K"
    by (simp add: K''_def then_void_valid)
  have ap: "a \<noteq> p"
    using assms(1) by (simp add: p_def)
  have K1a: "states ?K1 a = states K a" and K1p: "states ?K1 p = new_state"
    and K1r: "ready_list ?K1 = ready_list K"
    using ap Promise_new_states [of K] by (simp_all add: p_def)
  have fresh: "states K' p = new_state"
  proof (cases "state_status (states K a) = ready")
    case True
    with K1a set_continuation_ready [of ?K1 a task] K1p K' show ?thesis by simp
  next
    case False
    with K1a set_continuation_pending [of ?K1 a task] K1p K' ap show ?thesis by simp
  qed
  have pending: "state_status (states K a) \<noteq> ready \<longrightarrow>
            state_continuation (states K' a) = Some task \<and> ready_list K' = ready_list K"
    using K1a K1r set_continuation_pending [of ?K1 a task] K' by simp
  have scheduled: "state_status (states K a) = ready \<longrightarrow> ready_list K' = ready_list K @ [task]"
    using K1a K1r set_continuation_ready [of ?K1 a task] K' by simp
  have pending_void: "state_status (states K a) \<noteq> ready \<longrightarrow>
            state_continuation (states K'' a) = Some (then_task g a) \<and> ready_list K'' = ready_list K"
    using set_continuation_pending [of K a "then_task g a"] K'' by simp
  have scheduled_void: "state_status (states K a) = ready \<longrightarrow>
            ready_list K'' = ready_list K @ [then_task g a]"
    using set_continuation_ready [of K a "then_task g a"] K'' by simp
  have result: "\<forall>K2 K3 r. call f (Some a) K2 = (Returns r, K3) \<and> state_status (states K3 p) = not_ready \<and>
              state_exception (states K3 p) = None \<longrightarrow>
            fst (run_task call call_void task K2) = Returns () \<and>
            fst (Future_get (Some p) (snd (run_task call call_void task K2))) = Returns r"
  proof (intro allI impI)
    fix K2 K3 r
    assume h: "call f (Some a) K2 = (Returns r, K3) \<and> state_status (states K3 p) = not_ready \<and>
              state_exception (states K3 p) = None"
    from h run_thenNoUnwrap_task_value [of call f a K2 r K3 p call_void]
    show "fst (run_task call call_void task K2) = Returns () \<and>
            fst (Future_get (Some p) (snd (run_task call call_void task K2))) = Returns r"
      by (simp add: task_def Future_get_value)
  qed
  have failure: "\<forall>K2 K3 e. call f (Some a) K2 = (Throws e, K3) \<and> state_status (states K3 p) = not_ready \<longrightarrow>
            fst (run_task call call_void task K2) = Returns () \<and>
            fst (Future_get (Some p) (snd (run_task call call_void task K2))) = Throws e"
  proof (intro allI impI)
    fix K2 K3 e
    assume h: "call f (Some a) K2 = (Throws e, K3) \<and> state_status (states K3 p) = not_ready"
    from h run_thenNoUnwrap_task_exception [of call f a K2 e K3 p call_void]
    show "fst (run_task call call_void task K2) = Returns () \<and>
            fst (Future_get (Some p) (snd (run_task call call_void task K2))) = Throws e"
      by (simp add: task_def Future_get_exception)
  qed
  have head: "fst (Future_thenNoUnwrap None f K) = Throws (future_error no_state)"
    "fst (Future_then_void None g K) = Throws (future_error no_state)"
    "fst (Future_thenNoUnwrap (Some a) f K) = Returns (Some p)"
    "\<not> Future_valid (fst (snd (Future_thenNoUnwrap (Some a) f K)))"
    "fst (Future_then_void (Some a) g K) = Returns ()"
    "\<not> Future_valid (fst (snd (Future_then_void (Some a) g K)))"
    by (simp_all add: thenNoUnwrap_invalid then_void_invalid thenNoUnwrap_valid then_void_valid
        Future_valid_def p_def)
  from head fresh pending scheduled pending_void scheduled_void result failure
  show ?thesis by (intro conjI)
qed

lemma chained_kernel_eq:
  "chained_kernel = \<lparr>process_to_run = [],
      states = (\<lambda>_. state_pending)(1 := new_state, 0 := state_pending\<lparr>state_status := ready, state_continuation := None, state_value := Some 41\<rparr>),
      next_state = 2, ready_list = [thenNoUnwrap_task (Promise (Some 1) True) 0 ()],
      results = (\<lambda>_. Result_invalid)\<rparr>"
  by (simp add: chained_kernel_def pending_kernel_def kernel_of_def state_pending_def
      Future_thenNoUnwrap_def Promise_new_def Promise_get_future_def set_continuation_def
      set_value_def set_ready_def schedule_def new_state_def fun_upd_twist)

lemma add_one_chained:
  "add_one () (Some 0) chained_kernel = (Returns 42, snd (add_one () (Some 0) chained_kernel)) \<and>
   state_status (states (snd (add_one () (Some 0) chained_kernel)) 1) = not_ready \<and>
   state_exception (states (snd (add_one () (Some 0) chained_kernel)) 1) = None"
  by (simp add: chained_kernel_eq add_one_def Future_get_def SharedState_get_def state_pending_def new_state_def)

theorem then_consumes_handle_witness:
  "fst (Future_thenNoUnwrap (Some 0) () pending_kernel) = Returns (Some 1) \<and>
   \<not> Future_valid (fst (snd (Future_thenNoUnwrap (Some 0) () pending_kernel))) \<and>
   fst (Future_get (Some 1)
          (snd (run_task add_one no_void (thenNoUnwrap_task (Promise (Some 1) True) 0 ())
                  chained_kernel))) = Returns 42"
proof -
  have allocated: "0 < next_state pending_kernel" and first_free: "next_state pending_kernel = 1"
    by (simp_all add: pending_kernel_def kernel_of_def)
  note inst = then_consumes_handle [OF allocated, where f = "()" and g = "()" and call = add_one
      and call_void = no_void, unfolded first_free]
  from inst have "fst (Future_thenNoUnwrap (Some 0) () pending_kernel) = Returns (Some 1)"
    and "\<not> Future_valid (fst (snd (Future_thenNoUnwrap (Some 0) () pending_kernel)))"
    by blast+
  moreover from inst add_one_chained
  have "fst (Future_get (Some 1)
          (snd (run_task add_one no_void (thenNoUnwrap_task (Promise (Some 1) True) 0 ())
                  chained_kernel))) = Returns 42"
    by blast
  ultimately show ?thesis by (intro conjI)
qed

section \<open>Properties of sleeping and of the condition variable\<close>

lemma simcalls_simcall_BODY:
  "simcalls (snd (simcall_BODY handle call w)) = simcalls w @ [call]"
  by (simp add: simcall_BODY_def split: prod.splits)

text \<open>
  C8, as stated, fails: with the duration 0, and with a time point equal to the clock,
  \<^verbatim>\<open>sleep_for\<close> and \<^verbatim>\<open>sleep_until\<close> issue no simcall at all.
\<close>

theorem sleep_nonpositive_counterexample:
  "(0::real) \<le> 0 \<and>
   simcalls (snd (sleep_for kernel_completes 0 actor_world)) = [] \<and>
   (10::real) \<le> SIMIX_get_clock actor_world \<and>
   simcalls (snd (sleep_until kernel_completes (-) 10 actor_world)) = []"
  by (simp add: sleep_for_def sleep_until_def actor_world_def)

text \<open>
  C8, amended. The guards \<^verbatim>\<open>duration > 0\<close> and \<^verbatim>\<open>timeout > now\<close> make
  \<^verbatim>\<open>sleep_for\<close> with a duration that is not positive, and \<^verbatim>\<open>sleep_until\<close> with a time
  point that is not after the clock, return at once: nothing changes, no simcall is issued
  and the scheduler is not entered, whatever the kernel would do with one and whatever the
  subtraction of doubles computes. Only a positive duration, or a time point after the clock,
  issues the sleep simcall, once, with the duration, or with the difference that the
  subtraction of doubles computes.
\<close>

theorem sleep_nonpositive_no_simcall:
  "(duration \<le> 0 \<longrightarrow> sleep_for handle duration w = (Returns (), w)) \<and>
   (timeout_time \<le> SIMIX_get_clock w \<longrightarrow>
      sleep_until handle minus_double timeout_time w = (Returns (), w)) \<and>
   (duration > 0 \<longrightarrow>
      simcalls (snd (sleep_for handle duration w)) = simcalls w @ [SIMCALL_PROCESS_SLEEP duration]) \<and>
   (timeout_time > SIMIX_get_clock w \<longrightarrow>
      simcalls (snd (sleep_until handle minus_double timeout_time w)) =
        simcalls w @ [SIMCALL_PROCESS_SLEEP (minus_double timeout_time (SIMIX_get_clock w))])"
  by (simp add: sleep_for_def sleep_until_def simcall_process_sleep_def simcalls_simcall_BODY)

theorem sleep_nonpositive_no_simcall_witness:
  "sleep_for kernel_completes (- 2) actor_world = (Returns (), actor_world) \<and>
   sleep_until kernel_completes (-) 4 actor_world = (Returns (), actor_world) \<and>
   simcalls (snd (sleep_for kernel_completes 5 actor_world)) = [SIMCALL_PROCESS_SLEEP 5] \<and>
   simcalls (snd (sleep_until kernel_completes (-) 12 actor_world)) = [SIMCALL_PROCESS_SLEEP 2]"
  using sleep_nonpositive_no_simcall [where duration = "- 2" and handle = kernel_completes
      and w = actor_world and timeout_time = 4 and minus_double = "(-)"]
    sleep_nonpositive_no_simcall [where duration = 5 and handle = kernel_completes
      and w = actor_world and timeout_time = 12 and minus_double = "(-)"]
  by (simp add: actor_world_def)


lemma simcalls_cond_wait_timeout:
  "simcall_cond_wait_timeout handle cond m t w = (r, w1) \<Longrightarrow>
     simcalls w1 = simcalls w @ [SIMCALL_COND_WAIT_TIMEOUT cond m t]"
  using simcalls_simcall_BODY [of handle "SIMCALL_COND_WAIT_TIMEOUT cond m t" w]
  by (simp add: simcall_cond_wait_timeout_def)

lemma simcalls_Mutex_lock:
  "Mutex_lock handle m w = (r, w1) \<Longrightarrow> simcalls w1 = simcalls w @ [SIMCALL_MUTEX_LOCK m]"
  using simcalls_simcall_BODY [of handle "SIMCALL_MUTEX_LOCK m" w]
  by (simp add: Mutex_lock_def simcall_mutex_lock_def)

lemma wait_for_returns:
  "simcall_cond_wait_timeout handle cond m (if duration < 0 then 0 else duration) w = (Returns u, w1) \<Longrightarrow>
     ConditionVariable_wait_for handle cond m duration w = (Returns no_timeout, w1)"
  by (simp add: ConditionVariable_wait_for_def)

lemma wait_for_aborts:
  "simcall_cond_wait_timeout handle cond m (if duration < 0 then 0 else duration) w = (Aborts a, w1) \<Longrightarrow>
     ConditionVariable_wait_for handle cond m duration w = (Aborts a, w1)"
  by (simp add: ConditionVariable_wait_for_def)

lemma wait_for_other_exception:
  "simcall_cond_wait_timeout handle cond m (if duration < 0 then 0 else duration) w = (Throws e, w1) \<Longrightarrow>
   e \<noteq> xbt_ex timeout_error \<Longrightarrow>
     ConditionVariable_wait_for handle cond m duration w = (Aborts std_terminate, w1)"
  by (cases e) (simp_all add: ConditionVariable_wait_for_def)

lemma wait_for_timeout:
  "simcall_cond_wait_timeout handle cond m (if duration < 0 then 0 else duration) w =
     (Throws (xbt_ex timeout_error), w1) \<Longrightarrow>
   Mutex_lock handle m w1 = (r2, w2) \<Longrightarrow>
     ConditionVariable_wait_for handle cond m duration w =
       (case r2 of Returns u \<Rightarrow> Returns timeout | Throws e \<Rightarrow> Aborts std_terminate | Aborts a \<Rightarrow> Aborts a, w2)"
  by (cases r2) (simp_all add: ConditionVariable_wait_for_def)

text \<open>
  C7. Let the timed simcall of \<^verbatim>\<open>wait_for\<close> end with \<open>r1\<close>, and let locking the
  mutex afterwards end with \<open>r2\<close>. If the simcall returns, \<^verbatim>\<open>wait_for\<close> returns
  \<open>no_timeout\<close>. If it throws the timeout error and the lock succeeds, \<^verbatim>\<open>wait_for\<close>
  returns \<open>timeout\<close> and the lock simcall has been issued after the wait, before the
  return; if the lock throws, the program is terminated. Every other exception of the
  simcall terminates the program. Conversely \<open>timeout\<close> is only returned after a timeout
  error and a successful lock, and \<open>no_timeout\<close> only after a simcall that returned.
\<close>

theorem wait_for_timeout_reacquires:
  assumes wait: "simcall_cond_wait_timeout handle cond m (if duration < 0 then 0 else duration) w = (r1, w1)"
    and lock: "Mutex_lock handle m w1 = (r2, w2)"
  shows "(r1 = Returns () \<longrightarrow>
            ConditionVariable_wait_for handle cond m duration w = (Returns no_timeout, w1)) \<and>
         (r1 = Throws (xbt_ex timeout_error) \<and> r2 = Returns () \<longrightarrow>
            ConditionVariable_wait_for handle cond m duration w = (Returns timeout, w2) \<and>
            simcalls w2 = simcalls w @
              [SIMCALL_COND_WAIT_TIMEOUT cond m (if duration < 0 then 0 else duration),
               SIMCALL_MUTEX_LOCK m]) \<and>
         (r1 = Throws (xbt_ex timeout_error) \<and> (\<exists>e. r2 = Throws e) \<longrightarrow>
            ConditionVariable_wait_for handle cond m duration w = (Aborts std_terminate, w2)) \<and>
         ((\<exists>e. r1 = Throws e \<and> e \<noteq> xbt_ex timeout_error) \<longrightarrow>
            ConditionVariable_wait_for handle cond m duration w = (Aborts std_terminate, w1)) \<and>
         (fst (ConditionVariable_wait_for handle cond m duration w) = Returns timeout \<longrightarrow>
            r1 = Throws (xbt_ex timeout_error) \<and> r2 = Returns ()) \<and>
         (fst (ConditionVariable_wait_for handle cond m duration w) = Returns no_timeout \<longrightarrow>
            r1 = Returns ())"
proof (cases r1)
  case (Returns u)
  with wait wait_for_returns [of handle cond m duration w u w1] show ?thesis
    by simp
next
  case (Aborts a)
  with wait wait_for_aborts [of handle cond m duration w a w1] show ?thesis
    by simp
next
  case (Throws e)
  show ?thesis
  proof (cases "e = xbt_ex timeout_error")
    case False
    with Throws wait wait_for_other_exception [of handle cond m duration w e w1] show ?thesis
      by simp
  next
    case True
    with Throws wait lock wait_for_timeout [of handle cond m duration w w1 r2 w2]
    have res: "ConditionVariable_wait_for handle cond m duration w =
       (case r2 of Returns u \<Rightarrow> Returns timeout | Throws e \<Rightarrow> Aborts std_terminate | Aborts a \<Rightarrow> Aborts a, w2)"
      by simp
    have log: "simcalls w2 = simcalls w @
              [SIMCALL_COND_WAIT_TIMEOUT cond m (if duration < 0 then 0 else duration),
               SIMCALL_MUTEX_LOCK m]"
      using simcalls_cond_wait_timeout [OF wait] simcalls_Mutex_lock [OF lock] by simp
    from res log Throws True show ?thesis
      by (cases r2) simp_all
  qed
qed

theorem wait_for_timeout_reacquires_witness:
  "ConditionVariable_wait_for kernel_completes 3 4 2 actor_world =
     (Returns no_timeout, actor_world\<lparr>simcalls := [SIMCALL_COND_WAIT_TIMEOUT 3 4 2]\<rparr>) \<and>
   ConditionVariable_wait_for kernel_times_out 3 4 2 actor_world =
     (Returns timeout,
      actor_world\<lparr>simcalls := [SIMCALL_COND_WAIT_TIMEOUT 3 4 2, SIMCALL_MUTEX_LOCK 4]\<rparr>) \<and>
   ConditionVariable_wait_for kernel_fails_lock 3 4 2 actor_world =
     (Aborts std_terminate,
      actor_world\<lparr>simcalls := [SIMCALL_COND_WAIT_TIMEOUT 3 4 2, SIMCALL_MUTEX_LOCK 4]\<rparr>)"
proof -
  let ?w1 = "actor_world\<lparr>simcalls := [SIMCALL_COND_WAIT_TIMEOUT 3 4 2]\<rparr>"
  let ?w2 = "actor_world\<lparr>simcalls := [SIMCALL_COND_WAIT_TIMEOUT 3 4 2, SIMCALL_MUTEX_LOCK 4]\<rparr>"
  have a: "simcall_cond_wait_timeout kernel_completes 3 4 (if (2::real) < 0 then 0 else 2) actor_world
             = (Returns (), ?w1)"
    by (simp add: simcall_cond_wait_timeout_def simcall_BODY_def kernel_completes_def actor_world_def)
  have a': "Mutex_lock kernel_completes 4 ?w1 = (Returns (), ?w2)"
    by (simp add: Mutex_lock_def simcall_mutex_lock_def simcall_BODY_def kernel_completes_def
        actor_world_def)
  have b: "simcall_cond_wait_timeout kernel_times_out 3 4 (if (2::real) < 0 then 0 else 2) actor_world
             = (Throws (xbt_ex timeout_error), ?w1)"
    by (simp add: simcall_cond_wait_timeout_def simcall_BODY_def kernel_times_out_def actor_world_def)
  have b': "Mutex_lock kernel_times_out 4 ?w1 = (Returns (), ?w2)"
    by (simp add: Mutex_lock_def simcall_mutex_lock_def simcall_BODY_def kernel_times_out_def
        actor_world_def)
  have c: "simcall_cond_wait_timeout kernel_fails_lock 3 4 (if (2::real) < 0 then 0 else 2) actor_world
             = (Throws (xbt_ex timeout_error), ?w1)"
    by (simp add: simcall_cond_wait_timeout_def simcall_BODY_def kernel_fails_lock_def actor_world_def)
  have c': "Mutex_lock kernel_fails_lock 4 ?w1 = (Throws (user_exception 1), ?w2)"
    by (simp add: Mutex_lock_def simcall_mutex_lock_def simcall_BODY_def kernel_fails_lock_def
        actor_world_def)
  note completes = wait_for_timeout_reacquires [OF a a', THEN conjunct1, THEN mp, OF refl]
  note times_out = wait_for_timeout_reacquires [OF b b', THEN conjunct2, THEN conjunct1, THEN mp,
      OF conjI [OF refl refl], THEN conjunct1]
  have lock_throws: "(Throws (xbt_ex timeout_error) :: unit outcome) = Throws (xbt_ex timeout_error) \<and>
      (\<exists>e. (Throws (user_exception 1) :: unit outcome) = Throws e)"
    by blast
  note fails = wait_for_timeout_reacquires [OF c c', THEN conjunct2, THEN conjunct2, THEN conjunct1,
      THEN mp, OF lock_throws]
  from completes times_out fails show ?thesis
    by (intro conjI)
qed

lemma simcalls_wait_for:
  "simcalls (snd (ConditionVariable_wait_for handle cond m duration w)) =
     simcalls w @ [SIMCALL_COND_WAIT_TIMEOUT cond m (if duration < 0 then 0 else duration)] \<or>
   simcalls (snd (ConditionVariable_wait_for handle cond m duration w)) =
     simcalls w @ [SIMCALL_COND_WAIT_TIMEOUT cond m (if duration < 0 then 0 else duration),
                   SIMCALL_MUTEX_LOCK m]"
proof -
  obtain r1 w1 where wait:
    "simcall_cond_wait_timeout handle cond m (if duration < 0 then 0 else duration) w = (r1, w1)"
    by (cases "simcall_cond_wait_timeout handle cond m (if duration < 0 then 0 else duration) w")
  obtain r2 w2 where lock: "Mutex_lock handle m w1 = (r2, w2)"
    by (cases "Mutex_lock handle m w1")
  note log1 = simcalls_cond_wait_timeout [OF wait]
  note log2 = simcalls_Mutex_lock [OF lock]
  show ?thesis
  proof (cases r1)
    case (Returns u)
    with wait wait_for_returns [of handle cond m duration w u w1] log1 show ?thesis by simp
  next
    case (Aborts a)
    with wait wait_for_aborts [of handle cond m duration w a w1] log1 show ?thesis by simp
  next
    case (Throws e)
    show ?thesis
    proof (cases "e = xbt_ex timeout_error")
      case False
      with Throws wait wait_for_other_exception [of handle cond m duration w e w1] log1
      show ?thesis by simp
    next
      case True
      with Throws wait lock wait_for_timeout [of handle cond m duration w w1 r2 w2] log1 log2
      show ?thesis by simp
    qed
  qed
qed

text \<open>
  C10. With a negative duration \<^verbatim>\<open>wait_for\<close> behaves exactly as with the duration 0:
  the timed-wait simcall that it issues carries the timeout 0, and no simcall that it issues
  carries the timeout -1.
\<close>

theorem wait_for_negative_clamped:
  assumes "duration < 0"
  shows "ConditionVariable_wait_for handle cond m duration w =
           ConditionVariable_wait_for handle cond m 0 w \<and>
         simcalls (snd (ConditionVariable_wait_for handle cond m duration w)) ! length (simcalls w) =
           SIMCALL_COND_WAIT_TIMEOUT cond m 0 \<and>
         SIMCALL_COND_WAIT_TIMEOUT cond m (- 1) \<notin>
           set (drop (length (simcalls w))
                  (simcalls (snd (ConditionVariable_wait_for handle cond m duration w))))"
proof -
  have same: "ConditionVariable_wait_for handle cond m duration w =
           ConditionVariable_wait_for handle cond m 0 w"
    using assms by (simp add: ConditionVariable_wait_for_def)
  from simcalls_wait_for [of handle cond m duration w] assms
  have "simcalls (snd (ConditionVariable_wait_for handle cond m duration w)) =
          simcalls w @ [SIMCALL_COND_WAIT_TIMEOUT cond m 0] \<or>
        simcalls (snd (ConditionVariable_wait_for handle cond m duration w)) =
          simcalls w @ [SIMCALL_COND_WAIT_TIMEOUT cond m 0, SIMCALL_MUTEX_LOCK m]"
    by simp
  then show ?thesis
    using same by (auto simp: nth_append)
qed

theorem wait_for_negative_clamped_witness:
  "(- 5 :: real) < 0 \<and>
   ConditionVariable_wait_for kernel_times_out 3 4 (- 5) actor_world =
     ConditionVariable_wait_for kernel_times_out 3 4 0 actor_world \<and>
   simcalls (snd (ConditionVariable_wait_for kernel_times_out 3 4 (- 5) actor_world)) ! 0 =
     SIMCALL_COND_WAIT_TIMEOUT 3 4 0"
proof -
  have neg: "(- 5 :: real) < 0"
    by simp
  have empty: "length (simcalls actor_world) = 0"
    by (simp add: actor_world_def)
  note inst = wait_for_negative_clamped [OF neg, of kernel_times_out 3 4 actor_world, unfolded empty]
  from inst have "ConditionVariable_wait_for kernel_times_out 3 4 (- 5) actor_world =
     ConditionVariable_wait_for kernel_times_out 3 4 0 actor_world"
    by (rule conjunct1)
  moreover from inst
  have "simcalls (snd (ConditionVariable_wait_for kernel_times_out 3 4 (- 5) actor_world)) ! 0 =
     SIMCALL_COND_WAIT_TIMEOUT 3 4 0"
    by (rule conjunct2 [THEN conjunct1])
  ultimately show ?thesis
    using neg by (intro conjI)
qed

section \<open>Properties of the Boost contexts\<close>

lemma suspend_in_range:
  "unat (process_index g) < length (process_to_run g) \<Longrightarrow>
     SerialBoostContext_suspend g =
       g\<lparr>process_index := process_index g + 1,
         current_context := process_context (process_to_run g ! unat (process_index g))\<rparr>"
  by (simp add: SerialBoostContext_suspend_def Let_def)

lemma suspend_past_end:
  "\<not> unat (process_index g) < length (process_to_run g) \<Longrightarrow>
     SerialBoostContext_suspend g =
       g\<lparr>process_index := process_index g + 1, current_context := maestro_context\<rparr>"
  by (simp add: SerialBoostContext_suspend_def Let_def)

lemma serial_round_maestro:
  "current_context g = maestro_context \<Longrightarrow> serial_round fuel g = Some ([], g)"
  by (cases fuel) simp_all

lemma unat_index_Suc:
  fixes i :: "64 word"
  assumes "unat i < n" and "n < 2 ^ 64"
  shows "unat (i + 1) = Suc (unat i)"
proof -
  have "unat i + unat (1 :: 64 word) < 2 ^ LENGTH(64)"
    using assms by simp
  then have "unat (i + 1) = unat i + unat (1 :: 64 word)"
    by (simp only: unat_add_lem)
  then show ?thesis by simp
qed

lemma serial_round_from:
  assumes "length (process_to_run g) < 2 ^ 64"
    and "unat (process_index g) = k" and "0 < k" and "k \<le> length (process_to_run g)"
    and "current_context g = process_context (process_to_run g ! (k - 1))"
    and "length (process_to_run g) - k < fuel"
  shows "\<exists>g'. serial_round fuel g = Some (drop (k - 1) (process_to_run g), g') \<and>
              current_context g' = maestro_context \<and> process_to_run g' = process_to_run g"
  using assms
proof (induction fuel arbitrary: g k)
  case 0
  then show ?case by simp
next
  case (Suc fuel)
  let ?ps = "process_to_run g"
  show ?case
  proof (cases "k < length ?ps")
    case True
    let ?g1 = "SerialBoostContext_suspend g"
    from True Suc.prems(2) have g1: "?g1 = g\<lparr>process_index := process_index g + 1,
         current_context := process_context (?ps ! k)\<rparr>"
      using suspend_in_range [of g] by simp
    have idx: "unat (process_index ?g1) = Suc k"
      using g1 unat_index_Suc [of "process_index g" "length ?ps"] True Suc.prems(1,2) by simp
    have "\<exists>g'. serial_round fuel ?g1 = Some (drop (Suc k - 1) (process_to_run ?g1), g') \<and>
              current_context g' = maestro_context \<and> process_to_run g' = process_to_run ?g1"
    proof (rule Suc.IH [OF _ idx])
      show "length (process_to_run ?g1) < 2 ^ 64" using g1 Suc.prems(1) by simp
      show "0 < Suc k" by simp
      show "Suc k \<le> length (process_to_run ?g1)" using g1 True by simp
      show "current_context ?g1 = process_context (process_to_run ?g1 ! (Suc k - 1))"
        using g1 by simp
      show "length (process_to_run ?g1) - Suc k < fuel" using g1 Suc.prems(6) True by simp
    qed
    then obtain g' where rest: "serial_round fuel ?g1 = Some (drop k ?ps, g')"
      and fin: "current_context g' = maestro_context" "process_to_run g' = ?ps"
      using g1 by auto
    have "drop (k - 1) ?ps = ?ps ! (k - 1) # drop k ?ps"
      using Suc.prems(3,4) Cons_nth_drop_Suc [of "k - 1" ?ps] by simp
    with rest fin Suc.prems(5) show ?thesis
      by simp
  next
    case False
    with Suc.prems(4) have k: "k = length ?ps" by simp
    let ?g1 = "SerialBoostContext_suspend g"
    from k Suc.prems(2) have g1: "?g1 = g\<lparr>process_index := process_index g + 1,
         current_context := maestro_context\<rparr>"
      using suspend_past_end [of g] by simp
    then have "serial_round fuel ?g1 = Some ([], ?g1)"
      using serial_round_maestro [of ?g1 fuel] by simp
    moreover have "drop (k - 1) ?ps = [?ps ! (k - 1)]"
      using k Suc.prems(3) Cons_nth_drop_Suc [of "k - 1" ?ps] by simp
    ultimately show ?thesis
      using Suc.prems(5) g1 by simp
  qed
qed

text \<open>
  C4. Started by \<^verbatim>\<open>run_all\<close> from maestro, a round of the serial variant resumes the
  actors of the to-run list exactly in list order and then returns to the maestro context,
  within as many calls of \<^verbatim>\<open>suspend\<close> as the list has actors. Each \<^verbatim>\<open>suspend\<close> adds
  one to the shared index and switches to the context of the actor at the old index, or to
  the maestro context when that index is past the end of the list.
\<close>

theorem serial_round_fifo:
  assumes "length (process_to_run g) < 2 ^ 64"
    and "current_context g = maestro_context"
    and "length (process_to_run g) \<le> fuel"
  shows "(\<exists>g'. serial_round fuel (BoostContextFactory_run_all g) = Some (process_to_run g, g') \<and>
              current_context g' = maestro_context) \<and>
         (\<forall>s. process_to_run s = process_to_run g \<longrightarrow>
              process_index (SerialBoostContext_suspend s) = process_index s + 1 \<and>
              current_context (SerialBoostContext_suspend s) =
                (if unat (process_index s) < length (process_to_run g)
                 then process_context (process_to_run g ! unat (process_index s))
                 else maestro_context))"
proof
  show "\<exists>g'. serial_round fuel (BoostContextFactory_run_all g) = Some (process_to_run g, g') \<and>
              current_context g' = maestro_context"
  proof (cases "process_to_run g")
    case Nil
    with assms(2) show ?thesis
      by (simp add: BoostContextFactory_run_all_def serial_round_maestro)
  next
    case (Cons first_process rest)
    let ?g0 = "BoostContextFactory_run_all g"
    from Cons have g0: "?g0 = g\<lparr>process_index := 1, current_context := process_context first_process\<rparr>"
      by (simp add: BoostContextFactory_run_all_def SerialBoostContext_resume_def)
    have "\<exists>g'. serial_round fuel ?g0 = Some (drop (1 - 1) (process_to_run ?g0), g') \<and>
              current_context g' = maestro_context \<and> process_to_run g' = process_to_run ?g0"
    proof (rule serial_round_from)
      show "length (process_to_run ?g0) < 2 ^ 64" using g0 assms(1) by simp
      show "unat (process_index ?g0) = 1" using g0 by simp
      show "(0::nat) < 1" by simp
      show "1 \<le> length (process_to_run ?g0)" using g0 Cons by simp
      show "current_context ?g0 = process_context (process_to_run ?g0 ! (1 - 1))"
        using g0 Cons by simp
      show "length (process_to_run ?g0) - 1 < fuel" using g0 Cons assms(3) by simp
    qed
    with g0 show ?thesis by auto
  qed
next
  show "\<forall>s. process_to_run s = process_to_run g \<longrightarrow>
              process_index (SerialBoostContext_suspend s) = process_index s + 1 \<and>
              current_context (SerialBoostContext_suspend s) =
                (if unat (process_index s) < length (process_to_run g)
                 then process_context (process_to_run g ! unat (process_index s))
                 else maestro_context)"
    by (simp add: SerialBoostContext_suspend_def Let_def)
qed

theorem serial_round_fifo_witness:
  "\<exists>g'. serial_round 3 (BoostContextFactory_run_all three_to_run) = Some ([5, 3, 8], g') \<and>
         current_context g' = maestro_context"
proof -
  have "length (process_to_run three_to_run) < 2 ^ 64" 
    and "current_context three_to_run = maestro_context"
    and "length (process_to_run three_to_run) \<le> 3"
    and "process_to_run three_to_run = [5, 3, 8]"
    by (simp_all add: three_to_run_def)
  from serial_round_fifo [OF this(1,2,3), THEN conjunct1] this(4) show ?thesis
    by simp
qed

lemma wrapper_StopRequest:
  "code w = (Throws StopRequest, w1) \<Longrightarrow>
     BoostContext_wrapper code Context_stop suspend w = suspend w1"
  by (simp add: BoostContext_wrapper_def wrapper_try_def)

lemma wrapper_other_exception:
  "code w = (Throws e, w1) \<Longrightarrow> e \<noteq> StopRequest \<Longrightarrow>
     BoostContext_wrapper code Context_stop suspend w = (Throws e, w1)"
  by (simp add: BoostContext_wrapper_def wrapper_try_def)

lemma wrapper_returns:
  "code w = (Returns u, w1) \<Longrightarrow> Context_stop w1 = (Returns u', w2) \<Longrightarrow>
     BoostContext_wrapper code Context_stop suspend w = suspend w2"
  by (simp add: BoostContext_wrapper_def wrapper_try_def)

lemma BoostContext_stop_throws:
  "Context_stop w = (Returns u, w1) \<Longrightarrow> BoostContext_stop Context_stop w = (Throws StopRequest, w1)"
  by (simp add: BoostContext_stop_def)

text \<open>
  C9. \<^verbatim>\<open>BoostContext::stop\<close> throws \<open>StopRequest\<close> after the base-class stop, and a
  trampoline whose code runs that stop path swallows the signal and goes on to
  \<^verbatim>\<open>suspend\<close>, as it does for any code that ends with \<open>StopRequest\<close>. Any other
  exception of the code leaves the trampoline without \<^verbatim>\<open>suspend\<close> being called, and,
  the trampoline being the entry function of the context, terminates the program. Code
  that returns is followed by the base-class stop and by \<^verbatim>\<open>suspend\<close>.
\<close>

theorem wrapper_swallows_StopRequest:
  "(Context_stop w = (Returns (), w1) \<longrightarrow>
      BoostContext_stop Context_stop w = (Throws StopRequest, w1) \<and>
      BoostContext_wrapper (BoostContext_stop Context_stop) Context_stop suspend w = suspend w1) \<and>
   (code w = (Throws StopRequest, w1) \<longrightarrow>
      BoostContext_wrapper code Context_stop suspend w = suspend w1) \<and>
   (code w = (Throws e, w1) \<and> e \<noteq> StopRequest \<longrightarrow>
      BoostContext_wrapper code Context_stop suspend w = (Throws e, w1) \<and>
      fcontext_entry (BoostContext_wrapper code Context_stop suspend) w = (Aborts std_terminate, w1)) \<and>
   (code w = (Returns (), w1) \<and> Context_stop w1 = (Returns (), w2) \<longrightarrow>
      BoostContext_wrapper code Context_stop suspend w = suspend w2)"
proof (intro conjI impI)
  assume stop: "Context_stop w = (Returns (), w1)"
  then show thrown: "BoostContext_stop Context_stop w = (Throws StopRequest, w1)"
    by (rule BoostContext_stop_throws)
  then show "BoostContext_wrapper (BoostContext_stop Context_stop) Context_stop suspend w = suspend w1"
    by (rule wrapper_StopRequest)
next
  assume "code w = (Throws StopRequest, w1)"
  then show "BoostContext_wrapper code Context_stop suspend w = suspend w1"
    by (rule wrapper_StopRequest)
next
  assume "code w = (Throws e, w1) \<and> e \<noteq> StopRequest"
  then show escapes: "BoostContext_wrapper code Context_stop suspend w = (Throws e, w1)"
    by (simp add: wrapper_other_exception)
  then show "fcontext_entry (BoostContext_wrapper code Context_stop suspend) w = (Aborts std_terminate, w1)"
    by (simp add: fcontext_entry_def)
next
  assume "code w = (Returns (), w1) \<and> Context_stop w1 = (Returns (), w2)"
  then show "BoostContext_wrapper code Context_stop suspend w = suspend w2"
    by (simp add: wrapper_returns)
qed

theorem wrapper_swallows_StopRequest_witness:
  "BoostContext_stop cleanup_runs three_to_run = (Throws StopRequest, three_to_run) \<and>
   BoostContext_wrapper (BoostContext_stop cleanup_runs) cleanup_runs serial_suspend three_to_run =
     serial_suspend three_to_run \<and>
   fcontext_entry (BoostContext_wrapper code_fails cleanup_runs serial_suspend) three_to_run =
     (Aborts std_terminate, three_to_run)"
proof -
  have stop: "cleanup_runs three_to_run = (Returns (), three_to_run)"
    by (simp add: cleanup_runs_def)
  have fails: "code_fails three_to_run = (Throws (user_exception 9), three_to_run) \<and>
      user_exception 9 \<noteq> StopRequest"
    by (simp add: code_fails_def)
  note stopped = wrapper_swallows_StopRequest [of cleanup_runs three_to_run three_to_run
      serial_suspend code_fails "user_exception 9" three_to_run, THEN conjunct1, THEN mp, OF stop]
  note failed = wrapper_swallows_StopRequest [of cleanup_runs three_to_run three_to_run
      serial_suspend code_fails "user_exception 9" three_to_run, THEN conjunct2, THEN conjunct2,
      THEN conjunct1, THEN mp, OF fails, THEN conjunct2]
  from stopped failed show ?thesis
    by (intro conjI) simp_all
qed

section \<open>Properties of the generic simcalls\<close>

lemma kernelImmediate_in_maestro:
  "SIMIX_is_maestro w \<Longrightarrow> code (kernel_state w) = (r, k) \<Longrightarrow>
     kernelImmediate code w = (r, w\<lparr>kernel_state := k\<rparr>)"
  by (simp add: kernelImmediate_def in_kernel_def)

lemma kernelImmediate_closure_maestro:
  "SIMIX_is_maestro w \<Longrightarrow> code (kernel_state w) = (r, k) \<Longrightarrow>
     kernelImmediate_closure code (result, w) =
       (case r of
          Returns v \<Rightarrow> (Returns (), Result_value v, w\<lparr>kernel_state := k\<rparr>)
        | Throws e \<Rightarrow> (Returns (), Result_exception e, w\<lparr>kernel_state := k\<rparr>)
        | Aborts a \<Rightarrow> (Aborts a, result, w\<lparr>kernel_state := k\<rparr>))"
  by (cases r)
    (simp_all add: kernelImmediate_closure_def fulfillPromise_def in_kernel_def Result_set_value_def
      Result_set_exception_def)

lemma kernelImmediate_in_actor:
  assumes "\<not> SIMIX_is_maestro w" and "code (kernel_state w) = (r, k)"
  shows "kernelImmediate code w =
           (r, w\<lparr>simcalls := simcalls w @ [SIMCALL_RUN_KERNEL], kernel_state := k\<rparr>)"
proof -
  let ?wk = "w\<lparr>SIMIX_is_maestro := True, simcalls := simcalls w @ [SIMCALL_RUN_KERNEL]\<rparr>"
  have "SIMIX_is_maestro ?wk" and "code (kernel_state ?wk) = (r, k)"
    using assms(2) by simp_all
  then have closure: "kernelImmediate_closure code (Result_invalid, ?wk) =
       (case r of
          Returns v \<Rightarrow> (Returns (), Result_value v, ?wk\<lparr>kernel_state := k\<rparr>)
        | Throws e \<Rightarrow> (Returns (), Result_exception e, ?wk\<lparr>kernel_state := k\<rparr>)
        | Aborts a \<Rightarrow> (Aborts a, Result_invalid, ?wk\<lparr>kernel_state := k\<rparr>))"
    by (rule kernelImmediate_closure_maestro [where code = code])
  show ?thesis
    using assms(1) closure
    by (cases w; cases r) (simp_all add: kernelImmediate_def simcall_run_kernel_def Result_get_def)
qed

text \<open>
  C6. Let \<open>code\<close>, run on the state of the kernel, end with \<open>r\<close>, a value, an
  exception or an abort. Called in maestro context, \<^verbatim>\<open>kernelImmediate\<close> ends with \<open>r\<close>,
  changes the world only as \<open>code\<close> changes the kernel, and issues no simcall. Called
  from an actor it ends with \<open>r\<close> too, and has issued exactly the immediate simcall.
\<close>

theorem kernelImmediate_runs_code:
  assumes "code (kernel_state w) = (r, k)"
  shows "(SIMIX_is_maestro w \<longrightarrow>
            kernelImmediate code w = (r, w\<lparr>kernel_state := k\<rparr>) \<and>
            simcalls (snd (kernelImmediate code w)) = simcalls w) \<and>
         (\<not> SIMIX_is_maestro w \<longrightarrow>
            kernelImmediate code w =
              (r, w\<lparr>simcalls := simcalls w @ [SIMCALL_RUN_KERNEL], kernel_state := k\<rparr>))"
  using assms kernelImmediate_in_maestro [of w code r k] kernelImmediate_in_actor [of w code r k]
  by simp

theorem kernelImmediate_runs_code_witness:
  "kernelImmediate answer (actor_world\<lparr>SIMIX_is_maestro := True\<rparr>) =
     (Returns 42, actor_world\<lparr>SIMIX_is_maestro := True\<rparr>) \<and>
   kernelImmediate answer actor_world =
     (Returns 42, actor_world\<lparr>simcalls := [SIMCALL_RUN_KERNEL]\<rparr>) \<and>
   kernelImmediate failure actor_world =
     (Throws (user_exception 3), actor_world\<lparr>simcalls := [SIMCALL_RUN_KERNEL]\<rparr>)"
proof -
  have a: "answer (kernel_state (actor_world\<lparr>SIMIX_is_maestro := True\<rparr>)) = (Returns 42, ())"
    and b: "answer (kernel_state actor_world) = (Returns 42, ())"
    and c: "failure (kernel_state actor_world) = (Throws (user_exception 3), ())"
    by (simp_all add: answer_def failure_def)
  have m: "SIMIX_is_maestro (actor_world\<lparr>SIMIX_is_maestro := True\<rparr>)"
    and n: "\<not> SIMIX_is_maestro actor_world"
    and e: "simcalls actor_world = []"
    by (simp_all add: actor_world_def)
  note in_maestro = kernelImmediate_runs_code [where code = answer, OF a, THEN conjunct1, THEN mp,
      OF m, THEN conjunct1]
  note in_actor = kernelImmediate_runs_code [where code = answer, OF b, THEN conjunct2, THEN mp, OF n]
  note failing = kernelImmediate_runs_code [where code = failure, OF c, THEN conjunct2, THEN mp, OF n]
  from in_maestro in_actor failing show ?thesis
    unfolding e by simp
qed

lemma kernelSync_blocks_actor:
  assumes "\<not> SIMIX_is_maestro w"
    and "kernelSync_closure code (SIMIX_process_self w)
           ((kernel_state w)\<lparr>results := (results (kernel_state w))(SIMIX_process_self w := Result_invalid)\<rparr>)
         = (r, K)"
  shows "kernelSync_blocks code w =
           (r, w\<lparr>simcalls := simcalls w @ [SIMCALL_RUN_BLOCKING], kernel_state := K\<rparr>)"
  using assms
  by (cases w) (simp add: kernelSync_blocks_def simcall_run_blocking_def in_kernel_def Let_def)

lemma kernelSync_closure_throws:
  "code K0 = (Throws e, K1) \<Longrightarrow>
     kernelSync_closure code self K0 =
       (Returns (), unblock self (K1\<lparr>results := (results K1)(self := Result_exception e)\<rparr>))"
  by (simp add: kernelSync_closure_def kernelSync_try_def result_set_exception_def
      Result_set_exception_def)

lemma kernelSync_closure_invalid:
  "code K0 = (Returns None, K1) \<Longrightarrow>
     kernelSync_closure code self K0 =
       (Returns (), unblock self
          (K1\<lparr>results := (results K1)(self := Result_exception (future_error no_state))\<rparr>))"
  by (simp add: kernelSync_closure_def kernelSync_try_def Future_then_void_def
      result_set_exception_def Result_set_exception_def)

lemma kernelSync_closure_valid:
  "code K0 = (Returns (Some a), K1) \<Longrightarrow>
     kernelSync_closure code self K0 =
       (Returns (), set_continuation a (then_task (kernelSync_continuation self) a) K1)"
  by (simp add: kernelSync_closure_def kernelSync_try_def Future_then_void_def)

lemma kernelSync_closure_aborts:
  "code K0 = (Aborts x, K1) \<Longrightarrow> kernelSync_closure code self K0 = (Aborts x, K1)"
  by (simp add: kernelSync_closure_def kernelSync_try_def)

lemma kernelSync_lambda_value:
  assumes "state_status (states K a) = ready" and "state_exception (states K a) = None"
    and "state_value (states K a) = Some v"
  shows "\<exists>K'. kernelSync_lambda self (Some a) K = (Returns (), K') \<and>
              results K' self = Result_value v \<and>
              process_to_run K' = process_to_run K @ [self]"
  using assms
  by (simp add: kernelSync_lambda_def setPromise_def fulfillPromise_def Future_get_def
      SharedState_get_value result_set_value_def Result_set_value_def unblock_def)

lemma kernelSync_lambda_exception:
  assumes "state_status (states K a) = ready" and "state_exception (states K a) = Some e"
  shows "\<exists>K'. kernelSync_lambda self (Some a) K = (Returns (), K') \<and>
              results K' self = Result_exception e \<and>
              process_to_run K' = process_to_run K @ [self]"
  using assms
  by (simp add: kernelSync_lambda_def setPromise_def fulfillPromise_def Future_get_def
      SharedState_get_exception result_set_exception_def Result_set_exception_def unblock_def)

lemma run_kernelSync_task:
  "run_task call (call_blocking call_void) (then_task (kernelSync_continuation self) a) K =
     kernelSync_lambda self (Some a) K"
  by (simp add: run_task_def call_blocking_def)

lemma kernelSync_resumes_value:
  "results (kernel_state w) (SIMIX_process_self w) = Result_value v \<Longrightarrow>
     fst (kernelSync_resumes w) = Returns v \<and> simcalls (snd (kernelSync_resumes w)) = simcalls w"
  by (simp add: kernelSync_resumes_def Result_get_def Let_def)

lemma kernelSync_resumes_exception:
  "results (kernel_state w) (SIMIX_process_self w) = Result_exception e \<Longrightarrow>
     fst (kernelSync_resumes w) = Throws e \<and> simcalls (snd (kernelSync_resumes w)) = simcalls w"
  by (simp add: kernelSync_resumes_def Result_get_def Let_def)

lemma simcalls_kernelSync_resumes:
  "simcalls (snd (kernelSync_resumes w)) = simcalls w"
  by (simp add: kernelSync_resumes_def Let_def split: prod.splits)

text \<open>
  C5, amended. Let an actor call \<^verbatim>\<open>kernelSync(code)\<close> and let \<open>code\<close> end with \<open>rc\<close> in
  the kernel. The call issues exactly one simcall, the blocking one, and none when the actor
  resumes. If \<open>code\<close> throws, or returns a future without shared state so that attaching
  the continuation throws \<open>no_state\<close>, the actor is put on the to-run list at once, no
  continuation is attached, and the resumed actor gets the exception rethrown. If \<open>code\<close>
  returns a future with a shared state, the actor is left blocked and the task of the lambda
  is attached to that state, or scheduled when the state is ready already; whenever that
  task runs on a ready state it unblocks the actor, and the resumed actor gets the value of
  the state returned, or its exception rethrown.
\<close>

theorem kernelSync_unblocks_with_result:
  fixes w :: "('v, 'f, 'g blocking_continuation) kernel world"
    and code :: "('v, 'f, 'g blocking_continuation) kernel \<Rightarrow>
                 Future outcome \<times> ('v, 'f, 'g blocking_continuation) kernel"
  assumes actor: "\<not> SIMIX_is_maestro w"
  defines "self \<equiv> SIMIX_process_self w"
  defines "K0 \<equiv> (kernel_state w)\<lparr>results := (results (kernel_state w))(self := Result_invalid)\<rparr>"
  defines "w1 \<equiv> snd (kernelSync_blocks code w)"
  defines "task \<equiv> \<lambda>a. then_task (kernelSync_continuation self) a"
  assumes code: "code K0 = (rc, K1)"
  shows "simcalls w1 = simcalls w @ [SIMCALL_RUN_BLOCKING] \<and>
         simcalls (snd (kernelSync_resumes w1)) = simcalls w1 \<and>
         (\<forall>e. rc = Throws e \<or> (rc = Returns None \<and> e = future_error no_state) \<longrightarrow>
            fst (kernelSync_blocks code w) = Returns () \<and>
            process_to_run (kernel_state w1) = process_to_run K1 @ [self] \<and>
            states (kernel_state w1) = states K1 \<and> ready_list (kernel_state w1) = ready_list K1 \<and>
            fst (kernelSync_resumes w1) = Throws e) \<and>
         (\<forall>a. rc = Returns (Some a) \<longrightarrow>
            fst (kernelSync_blocks code w) = Returns () \<and>
            process_to_run (kernel_state w1) = process_to_run K1 \<and>
            (state_status (states K1 a) \<noteq> ready \<longrightarrow>
               state_continuation (states (kernel_state w1) a) = Some (task a)) \<and>
            (state_status (states K1 a) = ready \<longrightarrow>
               ready_list (kernel_state w1) = ready_list K1 @ [task a])) \<and>
         (\<forall>a K2 v. state_status (states K2 a) = ready \<and> state_exception (states K2 a) = None \<and>
              state_value (states K2 a) = Some v \<longrightarrow>
            (\<exists>K3. run_task call (call_blocking call_void) (task a) K2 = (Returns (), K3) \<and>
                  process_to_run K3 = process_to_run K2 @ [self] \<and>
                  fst (kernelSync_resumes (w1\<lparr>kernel_state := K3\<rparr>)) = Returns v)) \<and>
         (\<forall>a K2 e. state_status (states K2 a) = ready \<and> state_exception (states K2 a) = Some e \<longrightarrow>
            (\<exists>K3. run_task call (call_blocking call_void) (task a) K2 = (Returns (), K3) \<and>
                  process_to_run K3 = process_to_run K2 @ [self] \<and>
                  fst (kernelSync_resumes (w1\<lparr>kernel_state := K3\<rparr>)) = Throws e))"
proof -
  obtain r K where closure: "kernelSync_closure code self K0 = (r, K)"
    by (cases "kernelSync_closure code self K0")
  with actor have blocks: "kernelSync_blocks code w =
      (r, w\<lparr>simcalls := simcalls w @ [SIMCALL_RUN_BLOCKING], kernel_state := K\<rparr>)"
    using kernelSync_blocks_actor [of w code r K] by (simp add: self_def K0_def)
  then have w1: "w1 = w\<lparr>simcalls := simcalls w @ [SIMCALL_RUN_BLOCKING], kernel_state := K\<rparr>"
    by (simp add: w1_def)
  have log: "simcalls w1 = simcalls w @ [SIMCALL_RUN_BLOCKING]"
    and me: "SIMIX_process_self w1 = self" and kernel: "kernel_state w1 = K"
    by (simp_all add: w1 self_def)
  have log': "simcalls (snd (kernelSync_resumes w1)) = simcalls w1"
    by (rule simcalls_kernelSync_resumes)
  have throws: "\<forall>e. rc = Throws e \<or> (rc = Returns None \<and> e = future_error no_state) \<longrightarrow>
            fst (kernelSync_blocks code w) = Returns () \<and>
            process_to_run (kernel_state w1) = process_to_run K1 @ [self] \<and>
            states (kernel_state w1) = states K1 \<and> ready_list (kernel_state w1) = ready_list K1 \<and>
            fst (kernelSync_resumes w1) = Throws e"
  proof (intro allI impI)
    fix e
    assume "rc = Throws e \<or> (rc = Returns None \<and> e = future_error no_state)"
    with code have "kernelSync_closure code self K0 =
       (Returns (), unblock self (K1\<lparr>results := (results K1)(self := Result_exception e)\<rparr>))"
      using kernelSync_closure_throws [of code K0 e K1 self]
        kernelSync_closure_invalid [of code K0 K1 self] by auto
    with closure have r: "r = Returns ()"
      and K: "K = unblock self (K1\<lparr>results := (results K1)(self := Result_exception e)\<rparr>)"
      by simp_all
    have "results (kernel_state w1) (SIMIX_process_self w1) = Result_exception e"
      by (simp add: kernel me K unblock_def)
    then have "fst (kernelSync_resumes w1) = Throws e"
      by (simp add: kernelSync_resumes_exception)
    then show "fst (kernelSync_blocks code w) = Returns () \<and>
            process_to_run (kernel_state w1) = process_to_run K1 @ [self] \<and>
            states (kernel_state w1) = states K1 \<and> ready_list (kernel_state w1) = ready_list K1 \<and>
            fst (kernelSync_resumes w1) = Throws e"
      by (simp add: blocks r kernel K unblock_def)
  qed
  have attaches: "\<forall>a. rc = Returns (Some a) \<longrightarrow>
            fst (kernelSync_blocks code w) = Returns () \<and>
            process_to_run (kernel_state w1) = process_to_run K1 \<and>
            (state_status (states K1 a) \<noteq> ready \<longrightarrow>
               state_continuation (states (kernel_state w1) a) = Some (task a)) \<and>
            (state_status (states K1 a) = ready \<longrightarrow>
               ready_list (kernel_state w1) = ready_list K1 @ [task a])"
  proof (intro allI impI)
    fix a
    assume "rc = Returns (Some a)"
    with code closure kernelSync_closure_valid [of code K0 a K1 self]
    have r: "r = Returns ()" and K: "K = set_continuation a (task a) K1"
      by (simp_all add: task_def)
    show "fst (kernelSync_blocks code w) = Returns () \<and>
            process_to_run (kernel_state w1) = process_to_run K1 \<and>
            (state_status (states K1 a) \<noteq> ready \<longrightarrow>
               state_continuation (states (kernel_state w1) a) = Some (task a)) \<and>
            (state_status (states K1 a) = ready \<longrightarrow>
               ready_list (kernel_state w1) = ready_list K1 @ [task a])"
      by (simp add: blocks r kernel K set_continuation_def schedule_def)
  qed
  have transports: "\<forall>a K2 v. state_status (states K2 a) = ready \<and> state_exception (states K2 a) = None \<and>
              state_value (states K2 a) = Some v \<longrightarrow>
            (\<exists>K3. run_task call (call_blocking call_void) (task a) K2 = (Returns (), K3) \<and>
                  process_to_run K3 = process_to_run K2 @ [self] \<and>
                  fst (kernelSync_resumes (w1\<lparr>kernel_state := K3\<rparr>)) = Returns v)"
  proof (intro allI impI)
    fix a v and K2 :: "('v, 'f, 'g blocking_continuation) kernel"
    assume "state_status (states K2 a) = ready \<and> state_exception (states K2 a) = None \<and>
              state_value (states K2 a) = Some v"
    then have "state_status (states K2 a) = ready" and "state_exception (states K2 a) = None"
      and "state_value (states K2 a) = Some v"
      by simp_all
    from kernelSync_lambda_value [OF this, of self]
    obtain K3 where K3: "kernelSync_lambda self (Some a) K2 = (Returns (), K3)"
      "results K3 self = Result_value v" "process_to_run K3 = process_to_run K2 @ [self]"
      by auto
    from K3(2) me have "fst (kernelSync_resumes (w1\<lparr>kernel_state := K3\<rparr>)) = Returns v"
      using kernelSync_resumes_value [of "w1\<lparr>kernel_state := K3\<rparr>" v] by simp
    with K3 show "\<exists>K3. run_task call (call_blocking call_void) (task a) K2 = (Returns (), K3) \<and>
                  process_to_run K3 = process_to_run K2 @ [self] \<and>
                  fst (kernelSync_resumes (w1\<lparr>kernel_state := K3\<rparr>)) = Returns v"
      by (simp add: task_def run_kernelSync_task)
  qed
  have transports_exception: "\<forall>a K2 e. state_status (states K2 a) = ready \<and>
              state_exception (states K2 a) = Some e \<longrightarrow>
            (\<exists>K3. run_task call (call_blocking call_void) (task a) K2 = (Returns (), K3) \<and>
                  process_to_run K3 = process_to_run K2 @ [self] \<and>
                  fst (kernelSync_resumes (w1\<lparr>kernel_state := K3\<rparr>)) = Throws e)"
  proof (intro allI impI)
    fix a e and K2 :: "('v, 'f, 'g blocking_continuation) kernel"
    assume "state_status (states K2 a) = ready \<and> state_exception (states K2 a) = Some e"
    then have "state_status (states K2 a) = ready" and "state_exception (states K2 a) = Some e"
      by simp_all
    from kernelSync_lambda_exception [OF this, of self]
    obtain K3 where K3: "kernelSync_lambda self (Some a) K2 = (Returns (), K3)"
      "results K3 self = Result_exception e" "process_to_run K3 = process_to_run K2 @ [self]"
      by auto
    from K3(2) me have "fst (kernelSync_resumes (w1\<lparr>kernel_state := K3\<rparr>)) = Throws e"
      using kernelSync_resumes_exception [of "w1\<lparr>kernel_state := K3\<rparr>" e] by simp
    with K3 show "\<exists>K3. run_task call (call_blocking call_void) (task a) K2 = (Returns (), K3) \<and>
                  process_to_run K3 = process_to_run K2 @ [self] \<and>
                  fst (kernelSync_resumes (w1\<lparr>kernel_state := K3\<rparr>)) = Throws e"
      by (simp add: task_def run_kernelSync_task)
  qed
  from log log' throws attaches transports transports_exception show ?thesis
    by (intro conjI)
qed

text \<open>
  C5, as stated, fails: a \<open>code\<close> that throws nothing and returns a future without
  shared state gets no continuation attached to anything (the shared states are as before
  and the ready list is empty); the actor is unblocked at once, with \<open>no_state\<close> in its
  result holder.
\<close>

theorem kernelSync_invalid_future_counterexample:
  "fst (returns_invalid_future (kernel_state sync_world)) = Returns None \<and>
   fst (kernelSync_blocks returns_invalid_future sync_world) = Returns () \<and>
   states (kernel_state (snd (kernelSync_blocks returns_invalid_future sync_world))) =
     states (kernel_state sync_world) \<and>
   ready_list (kernel_state (snd (kernelSync_blocks returns_invalid_future sync_world))) = [] \<and>
   process_to_run (kernel_state (snd (kernelSync_blocks returns_invalid_future sync_world))) = [1] \<and>
   results (kernel_state (snd (kernelSync_blocks returns_invalid_future sync_world))) 1 =
     Result_exception (future_error no_state)"
  by (simp add: returns_invalid_future_def sync_world_def kernel_of_def kernelSync_blocks_def
      simcall_run_blocking_def in_kernel_def kernelSync_closure_def kernelSync_try_def
      Future_then_void_def result_set_exception_def Result_set_exception_def unblock_def)

theorem kernelSync_unblocks_with_result_witness:
  "simcalls (snd (kernelSync_blocks throws_at_once sync_world)) = [SIMCALL_RUN_BLOCKING] \<and>
   process_to_run (kernel_state (snd (kernelSync_blocks throws_at_once sync_world))) = [1] \<and>
   fst (kernelSync_resumes (snd (kernelSync_blocks throws_at_once sync_world))) =
     Throws (user_exception 4) \<and>
   process_to_run (kernel_state (snd (kernelSync_blocks returns_pending_future sync_world))) = [] \<and>
   state_continuation
     (states (kernel_state (snd (kernelSync_blocks returns_pending_future sync_world))) 0) =
     Some (then_task (kernelSync_continuation 1) 0)"
proof -
  let ?K0 = "(kernel_state sync_world)\<lparr>results :=
      (results (kernel_state sync_world))(SIMIX_process_self sync_world := Result_invalid)\<rparr>"
  have actor: "\<not> SIMIX_is_maestro sync_world"
    and self: "SIMIX_process_self sync_world = 1"
    and log: "simcalls sync_world = []"
    by (simp_all add: sync_world_def)
  have K0: "process_to_run (kernel_state sync_world) = []" "state_status (states ?K0 0) \<noteq> ready"
    by (simp_all add: sync_world_def kernel_of_def new_state_def)
  have throws: "throws_at_once ?K0 = (Throws (user_exception 4), ?K0)"
    by (simp add: throws_at_once_def)
  have pending: "returns_pending_future ?K0 = (Returns (Some 0), ?K0)"
    by (simp add: returns_pending_future_def)
  note thrown = kernelSync_unblocks_with_result [where w = sync_world and code = throws_at_once
      and rc = "Throws (user_exception 4)" and ?K1.0 = ?K0, OF actor throws]
  note attached = kernelSync_unblocks_with_result [where w = sync_world
      and code = returns_pending_future and rc = "Returns (Some 0)" and ?K1.0 = ?K0,
      OF actor pending]
  from thrown have "simcalls (snd (kernelSync_blocks throws_at_once sync_world)) =
      simcalls sync_world @ [SIMCALL_RUN_BLOCKING]"
    by (rule conjunct1)
  moreover from thrown have "process_to_run (kernel_state (snd (kernelSync_blocks throws_at_once sync_world))) =
      process_to_run ?K0 @ [SIMIX_process_self sync_world] \<and>
    fst (kernelSync_resumes (snd (kernelSync_blocks throws_at_once sync_world))) =
     Throws (user_exception 4)"
    by blast
  moreover from attached K0(2)
  have "process_to_run (kernel_state (snd (kernelSync_blocks returns_pending_future sync_world))) =
      process_to_run ?K0 \<and>
    state_continuation
     (states (kernel_state (snd (kernelSync_blocks returns_pending_future sync_world))) 0) =
     Some (then_task (kernelSync_continuation (SIMIX_process_self sync_world)) 0)"
    by blast
  ultimately show ?thesis
    by (simp add: self log K0(1))
qed

end
